theory Spec2Isabelle
  imports Complex_Main "HOL-Library.FSet" "HOL-Library.Sublist"
begin

section \<open>Python values\<close>

text \<open>
  A Python \<^verbatim>\<open>str\<close> is a sequence of Unicode code points, and the lexicon of the
  language classifier holds Arabic words, so a string is a list of code points.
  \<open>u\<close> reads an ASCII literal as such a list.
\<close>

type_synonym pystr = "nat list"

definition u :: "string \<Rightarrow> pystr" where
  "u s = map of_char s"

text \<open>
  The exceptions the modelled code can meet: the division of the classifier, and whatever
  the query engine raises (carried with its message, \<^verbatim>\<open>str(e)\<close>).
\<close>

datatype pyexc = ZeroDivisionError | EngineError pystr

fun exc_str :: "pyexc \<Rightarrow> pystr" where
  "exc_str ZeroDivisionError = u ''division by zero''"
| "exc_str (EngineError m) = m"

text \<open>
  A Python \<^verbatim>\<open>float\<close> that the code only stores and prints is carried as its
  \<^verbatim>\<open>repr\<close>, which identifies it.
\<close>

datatype pyfloat = FloatRepr pystr

fun float_str :: "pyfloat \<Rightarrow> pystr" where
  "float_str (FloatRepr r) = r"

datatype pyval = PStr pystr | PFloat pyfloat | PInt int

fun str_nat :: "nat \<Rightarrow> pystr" where
  "str_nat n = (if n < 10 then [48 + n] else str_nat (n div 10) @ [48 + n mod 10])"

definition str_int :: "int \<Rightarrow> pystr" where
  "str_int i = (if i < 0 then 45 # str_nat (nat (- i)) else str_nat (nat i))"

text \<open>
  What the code takes from the Python runtime and not from this repository: the Unicode
  tables behind \<^verbatim>\<open>str.lower\<close>, \<^verbatim>\<open>str.isspace\<close> (used by
  \<^verbatim>\<open>split\<close> and \<^verbatim>\<open>strip\<close>) and \<^verbatim>\<open>str.isalnum\<close>, and the
  regular-expression engine: \<open>re_finditer U p s\<close> lists, for every match of the pattern
  \<open>p\<close> in \<open>s\<close> under \<^verbatim>\<open>re.IGNORECASE\<close>, its groups 1 and 2.
  The functions that consult them take the runtime as their first argument.
\<close>

record pyrt =
  str_lower :: "pystr \<Rightarrow> pystr"
  cp_isspace :: "nat \<Rightarrow> bool"
  cp_isalnum :: "nat \<Rightarrow> bool"
  re_finditer :: "pystr \<Rightarrow> pystr \<Rightarrow> (pystr \<times> pystr) list"

text \<open>\<^verbatim>\<open>s.split()\<close>: the maximal runs of non-whitespace code points.\<close>

fun py_split_acc :: "(nat \<Rightarrow> bool) \<Rightarrow> pystr \<Rightarrow> pystr \<Rightarrow> pystr list" where
  "py_split_acc sp cur [] = (if cur = [] then [] else [cur])"
| "py_split_acc sp cur (c # cs) =
     (if sp c then (if cur = [] then py_split_acc sp [] cs else cur # py_split_acc sp [] cs)
      else py_split_acc sp (cur @ [c]) cs)"

definition py_split :: "pyrt \<Rightarrow> pystr \<Rightarrow> pystr list" where
  "py_split U s = py_split_acc (cp_isspace U) [] s"

text \<open>\<^verbatim>\<open>s.strip()\<close>\<close>

definition py_strip :: "pyrt \<Rightarrow> pystr \<Rightarrow> pystr" where
  "py_strip U s = rev (dropWhile (cp_isspace U) (rev (dropWhile (cp_isspace U) s)))"

text \<open>\<^verbatim>\<open>s.replace(a, b)\<close> for one-character \<open>a\<close> and \<open>b\<close>.\<close>

definition py_replace :: "nat \<Rightarrow> nat \<Rightarrow> pystr \<Rightarrow> pystr" where
  "py_replace a b s = map (\<lambda>c. if c = a then b else c) s"

text \<open>\<^verbatim>\<open>needle in hay\<close> on strings: \<open>needle\<close> occurs as a contiguous part of \<open>hay\<close>.\<close>

fun py_in :: "pystr \<Rightarrow> pystr \<Rightarrow> bool" where
  "py_in needle [] = (needle = [])"
| "py_in needle (c # cs) = (prefix needle (c # cs) \<or> py_in needle cs)"

text \<open>
  A runtime for concrete evaluation. It agrees with CPython on text made of ASCII code
  points in which none of the extraction patterns matches: lower-casing maps A-Z to a-z,
  the whitespace of ASCII is 9-13, 28-31 and 32, the alphanumerics are the digits and
  letters, and the pattern search finds nothing.
\<close>

definition ascii_lower :: "nat \<Rightarrow> nat" where
  "ascii_lower c = (if 65 \<le> c \<and> c \<le> 90 then c + 32 else c)"

definition ascii_isspace :: "nat \<Rightarrow> bool" where
  "ascii_isspace c = ((9 \<le> c \<and> c \<le> 13) \<or> (28 \<le> c \<and> c \<le> 32))"

definition ascii_isalnum :: "nat \<Rightarrow> bool" where
  "ascii_isalnum c = ((48 \<le> c \<and> c \<le> 57) \<or> (65 \<le> c \<and> c \<le> 90) \<or> (97 \<le> c \<and> c \<le> 122))"

definition ascii_runtime :: pyrt where
  "ascii_runtime = \<lparr> str_lower = map ascii_lower, cp_isspace = ascii_isspace,
     cp_isalnum = ascii_isalnum, re_finditer = (\<lambda>p s. []) \<rparr>"

section \<open>RDF terms and graphs\<close>

text \<open>
  An rdflib term is a URI reference or a literal (lexical form, language tag, datatype);
  a graph is a finite set of triples, so adding a triple twice changes nothing.
  \<open>ns_term\<close> is \<^verbatim>\<open>Namespace.__getitem__\<close> and attribute access.
\<close>

datatype node = URIRef pystr | Literal pystr "pystr option" "pystr option"

type_synonym triple = "node \<times> node \<times> node"

type_synonym rdf_graph = "triple fset"

definition graph_add :: "rdf_graph \<Rightarrow> triple \<Rightarrow> rdf_graph" where
  "graph_add g t = finsert t g"

definition ns_term :: "pystr \<Rightarrow> pystr \<Rightarrow> node" where
  "ns_term ns name = URIRef (ns @ name)"

definition RDF_ns :: pystr where
  "RDF_ns = u ''http://www.w3.org/1999/02/22-rdf-syntax-ns#''"

definition RDFS_ns :: pystr where
  "RDFS_ns = u ''http://www.w3.org/2000/01/rdf-schema#''"

definition XSD_ns :: pystr where
  "XSD_ns = u ''http://www.w3.org/2001/XMLSchema#''"

definition DCTERMS_ns :: pystr where
  "DCTERMS_ns = u ''http://purl.org/dc/terms/''"

definition LGONT :: "pystr \<Rightarrow> pystr" where
  "LGONT base_uri = base_uri @ u ''ontology/''"

definition LGDATA :: "pystr \<Rightarrow> pystr" where
  "LGDATA base_uri = base_uri @ u ''data/''"

definition LGPROV :: "pystr \<Rightarrow> pystr" where
  "LGPROV base_uri = base_uri @ u ''provenance/''"

definition LGRLHF :: "pystr \<Rightarrow> pystr" where
  "LGRLHF base_uri = base_uri @ u ''rlhf/''"

definition LGANG :: "pystr \<Rightarrow> pystr" where
  "LGANG base_uri = base_uri @ u ''annotators/''"

definition LGLANG :: "pystr \<Rightarrow> pystr" where
  "LGLANG base_uri = base_uri @ u ''languages/''"

text \<open>
  The clock and the random source are inputs: \<open>uuid4 env n\<close> is the text of the
  \<open>n\<close>-th value drawn and \<open>now_iso env n\<close> the \<^verbatim>\<open>isoformat()\<close> of the \<open>n\<close>-th
  clock reading. A \<^verbatim>\<open>datetime\<close> is carried as its \<^verbatim>\<open>isoformat()\<close>.
\<close>

record pyenv =
  uuid4 :: "nat \<Rightarrow> pystr"
  now_iso :: "nat \<Rightarrow> pystr"

section \<open>Identifier cleaning (triple\_generator.py and named\_graphs.py)\<close>

text \<open>
  \<^verbatim>\<open>_clean_uri_component\<close>, the same body in both classes: replace the space and the
  hyphen by an underscore, then keep the alphanumerics and the underscore.
\<close>

definition clean_uri_component :: "pyrt \<Rightarrow> pystr \<Rightarrow> pystr" where
  "clean_uri_component U component =
     (let cleaned = py_replace 45 95 (py_replace 32 95 component)
      in filter (\<lambda>c. cp_isalnum U c \<or> c = 95) cleaned)"

text \<open>
  The cleaning rule in the words of the design document, for comparison: every
  whitespace character and every hyphen becomes the connector, then every character
  that is neither alphanumeric nor the connector is dropped.
\<close>

definition spec_clean :: "pyrt \<Rightarrow> pystr \<Rightarrow> pystr" where
  "spec_clean U label =
     filter (\<lambda>c. cp_isalnum U c \<or> c = 95)
       (map (\<lambda>c. if cp_isspace U c \<or> c = 45 then 95 else c) label)"

text \<open>Minting in a namespace: \<^verbatim>\<open>self.LGDATA[self._clean_uri_component(label)]\<close>.\<close>

definition mint :: "pyrt \<Rightarrow> pystr \<Rightarrow> pystr \<Rightarrow> node" where
  "mint U ns label = ns_term ns (clean_uri_component U label)"

text \<open>
  The namespaces of the program, all made from one base URI: the constructors of the three
  classes set \<^verbatim>\<open>LGONT\<close>, \<^verbatim>\<open>LGDATA\<close>, \<^verbatim>\<open>LGPROV\<close>, \<^verbatim>\<open>LGRLHF\<close>,
  \<^verbatim>\<open>LGANG\<close> and \<^verbatim>\<open>LGLANG\<close>.
\<close>

definition program_namespaces :: "pystr \<Rightarrow> pystr list" where
  "program_namespaces base_uri =
     [LGONT base_uri, LGDATA base_uri, LGPROV base_uri, LGRLHF base_uri, LGANG base_uri,
      LGLANG base_uri]"

section \<open>The language classifier (triple\_generator.py)\<close>

definition language_patterns :: "(pystr \<times> pystr list) list" where
  "language_patterns =
    [(u ''es'', [u ''el'', u ''la'', u ''los'', u ''las'', u ''de'', u ''del'', u ''en'',
                 u ''con'', u ''por'', u ''para'', u ''que'', u ''es'', u ''son'']),
     (u ''ar'', [[1601, 1610], [1605, 1606], [1573, 1604, 1609], [1593, 1604, 1609],
                 [1605, 1593], [1607, 1608], [1607, 1610], [1575, 1604, 1578, 1610],
                 [1575, 1604, 1584, 1610]]),
     (u ''id'', [u ''yang'', u ''dan'', u ''di'', u ''ke'', u ''dari'', u ''untuk'',
                 u ''dengan'', u ''adalah'', u ''ini'', u ''itu'']),
     (u ''en'', [u ''the'', u ''and'', u ''or'', u ''in'', u ''on'', u ''at'', u ''to'',
                 u ''from'', u ''with'', u ''is'', u ''are''])]"

text \<open>\<^verbatim>\<open>a / b\<close> on integers raises on a zero divisor.\<close>

definition py_truediv :: "nat \<Rightarrow> nat \<Rightarrow> pyexc + real" where
  "py_truediv a b = (if b = 0 then Inl ZeroDivisionError else Inr (real a / real b))"

text \<open>
  The scoring loop over the lexicon in its insertion order. The scores of one text are
  quotients with one divisor, the number of tokens; the model keeps the exact quotients,
  whose order is that of the floating-point scores for any text of fewer than
  \<open>2 ^ 52\<close> tokens.
\<close>

definition hits :: "pystr list \<Rightarrow> pystr list \<Rightarrow> nat" where
  "hits words patterns = length (filter (\<lambda>word. word \<in> set patterns) words)"

fun language_scores :: "pystr list \<Rightarrow> (pystr \<times> pystr list) list \<Rightarrow> pyexc + (pystr \<times> real) list" where
  "language_scores words [] = Inr []"
| "language_scores words ((lang, patterns) # rest) =
     (let score = hits words patterns in
      if score > 0 then
        (case py_truediv score (length words) of
           Inl e \<Rightarrow> Inl e
         | Inr v \<Rightarrow> (case language_scores words rest of
                       Inl e \<Rightarrow> Inl e
                     | Inr scores \<Rightarrow> Inr ((lang, v) # scores)))
      else language_scores words rest)"

text \<open>\<^verbatim>\<open>max(items, key=lambda x: x[1])\<close>: the first item with the greatest key.\<close>

fun max_by_score :: "(pystr \<times> real) \<Rightarrow> (pystr \<times> real) list \<Rightarrow> (pystr \<times> real)" where
  "max_by_score best [] = best"
| "max_by_score best (x # xs) = max_by_score (if snd best < snd x then x else best) xs"

definition detect_language :: "pyrt \<Rightarrow> pystr \<Rightarrow> pyexc + pystr" where
  "detect_language U text =
     (if text = [] then Inr (u ''en'')
      else
        let text_lower = str_lower U text;
            words = py_split U text_lower
        in case language_scores words language_patterns of
             Inl e \<Rightarrow> Inl e
           | Inr [] \<Rightarrow> Inr (u ''en'')
           | Inr (s # scores) \<Rightarrow> Inr (fst (max_by_score s scores)))"

text \<open>The codes of the classifier's lexicon, and the language table of the store.\<close>

definition classifier_codes :: "pystr list" where
  "classifier_codes = map fst language_patterns"

definition supported_languages :: "pystr list" where
  "supported_languages = [u ''en'', u ''es'', u ''ar'', u ''id'', u ''zh'', u ''hi'']"

section \<open>The query interface (sparql\_interface.py)\<close>

record SPARQLQueryResult =
  r_query :: pystr
  r_results :: "(pystr \<times> pystr) list list"
  r_execution_time :: real
  r_result_count :: nat
  r_languages_found :: "pystr fset"
  r_query_type :: pystr

text \<open>\<^verbatim>\<open>_determine_query_type\<close>\<close>

definition determine_query_type :: "pyrt \<Rightarrow> pystr \<Rightarrow> pystr" where
  "determine_query_type U q =
     (let query_lower = str_lower U q in
      if py_in (u ''select'') query_lower then u ''select''
      else if py_in (u ''construct'') query_lower then u ''construct''
      else if py_in (u ''ask'') query_lower then u ''ask''
      else if py_in (u ''describe'') query_lower then u ''describe''
      else u ''unknown'')"

text \<open>
  A result row binds each of its labels to a term or to nothing (\<^verbatim>\<open>None\<close>).
  \<open>value_str\<close> is \<^verbatim>\<open>str(value)\<close>; \<open>value_language\<close> is the language tag that
  \<^verbatim>\<open>execute_query\<close> collects, present on a literal with a non-empty tag.
\<close>

type_synonym result_row = "(pystr \<times> node option) list"

fun value_str :: "node option \<Rightarrow> pystr" where
  "value_str None = u ''None''"
| "value_str (Some (URIRef s)) = s"
| "value_str (Some (Literal lexical lang dt)) = lexical"

fun value_language :: "node option \<Rightarrow> pystr option" where
  "value_language (Some (Literal lexical (Some l) dt)) = (if l = [] then None else Some l)"
| "value_language v = None"

definition process_row :: "result_row \<Rightarrow> (pystr \<times> pystr) list" where
  "process_row row = map (\<lambda>(var, v). (var, value_str v)) row"

definition row_languages :: "result_row \<Rightarrow> pystr list" where
  "row_languages row = concat (map (\<lambda>(var, v). case value_language v of None \<Rightarrow> [] | Some l \<Rightarrow> [l]) row)"

text \<open>\<^verbatim>\<open>try: body except Exception as e: handler(e)\<close>\<close>

definition py_try :: "(pyexc + 'a) \<Rightarrow> (pyexc \<Rightarrow> pyexc + 'a) \<Rightarrow> pyexc + 'a" where
  "py_try body handler = (case body of Inl e \<Rightarrow> handler e | Inr v \<Rightarrow> Inr v)"

text \<open>
  \<^verbatim>\<open>execute_query\<close>. The engine (\<^verbatim>\<open>self.dataset.query\<close>) is a parameter: it
  raises or returns rows. \<open>start_time\<close> and \<open>end_time\<close> are the two clock readings, in
  seconds.
\<close>

definition execute_query ::
  "pyrt \<Rightarrow> (pystr \<Rightarrow> pyexc + result_row list) \<Rightarrow> real \<Rightarrow> real \<Rightarrow> pystr \<Rightarrow> pyexc + SPARQLQueryResult" where
  "execute_query U engine start_time end_time q =
     py_try
       (case engine q of
          Inl e \<Rightarrow> Inl e
        | Inr rows \<Rightarrow>
            let processed_results = map process_row rows;
                languages = fset_of_list (concat (map row_languages rows));
                qt = determine_query_type U q
            in Inr \<lparr> r_query = q, r_results = processed_results,
                     r_execution_time = end_time - start_time,
                     r_result_count = length processed_results,
                     r_languages_found = languages, r_query_type = qt \<rparr>)
       (\<lambda>e. Inr \<lparr> r_query = q, r_results = [[(u ''error'', exc_str e)]],
                   r_execution_time = end_time - start_time,
                   r_result_count = 0, r_languages_found = {||}, r_query_type = u ''error'' \<rparr>)"

text \<open>\<^verbatim>\<open>sep.join(xs)\<close>\<close>

fun py_join :: "pystr \<Rightarrow> pystr list \<Rightarrow> pystr" where
  "py_join sep [] = []"
| "py_join sep [x] = x"
| "py_join sep (x # y # ys) = x @ sep @ py_join sep (y # ys)"

text \<open>
  The \<^verbatim>\<open>multilingual_search\<close> template after \<^verbatim>\<open>str.format\<close>, which writes every
  argument as it is: the text before the \<^verbatim>\<open>{search_term}\<close> field, with the namespace
  fields filled, and the text after it, with the language filter filled.
\<close>

definition ms_before :: "pystr \<Rightarrow> pystr \<Rightarrow> pystr \<Rightarrow> pystr" where
  "ms_before lgont lglang rdfs = concat
    [u ''\<newline>'',
     u ''            PREFIX lgont: <'', lgont, u ''>\<newline>'',
     u ''            PREFIX lglang: <'', lglang, u ''>\<newline>'',
     u ''            PREFIX rdfs: <'', rdfs, u ''>\<newline>'',
     u ''            \<newline>'',
     u ''            SELECT ?entity ?label ?language ?text ?confidence\<newline>'',
     u ''            WHERE {\<newline>'',
     u ''                ?langAnnotation lgont:annotatesStatement ?statement .\<newline>'',
     u ''                ?langAnnotation lgont:text ?text .\<newline>'',
     u ''                ?langAnnotation lgont:languageCode ?language .\<newline>'',
     u ''                ?langAnnotation lgont:confidence ?confidence .\<newline>'',
     u ''                ?statement lgont:hasSubject ?entity .\<newline>'',
     u ''                ?entity rdfs:label ?label .\<newline>'',
     u ''                FILTER(CONTAINS(LCASE(?text), LCASE(\"'']"

definition ms_after :: "pystr \<Rightarrow> pystr" where
  "ms_after language_filter = concat
    [u ''\")))\<newline>'',
     u ''                '', language_filter, u ''\<newline>'',
     u ''            }\<newline>'',
     u ''            ORDER BY DESC(?confidence)\<newline>'',
     u ''            '']"

definition multilingual_search_template ::
  "pystr \<Rightarrow> pystr \<Rightarrow> pystr \<Rightarrow> pystr \<Rightarrow> pystr \<Rightarrow> pystr" where
  "multilingual_search_template lgont lglang rdfs search_term language_filter =
     ms_before lgont lglang rdfs @ search_term @ ms_after language_filter"

definition ms_language_filter :: "pystr list option \<Rightarrow> pyfloat \<Rightarrow> pystr" where
  "ms_language_filter languages min_confidence =
     (let language_filter =
            (case languages of
               None \<Rightarrow> []
             | Some ls \<Rightarrow>
                 if ls \<noteq> [] \<and> u ''all'' \<notin> set ls
                 then u ''FILTER('' @
                      py_join (u '' || '') (map (\<lambda>lang. u ''?language = \"'' @ lang @ u ''\"'') ls) @
                      u '')''
                 else [])
      in if language_filter \<noteq> []
         then language_filter @ u '' FILTER(?confidence >= '' @ float_str min_confidence @ u '')''
         else u ''FILTER(?confidence >= '' @ float_str min_confidence @ u '')'')"

text \<open>The query string that \<^verbatim>\<open>multilingual_search\<close> renders and then executes.\<close>

definition multilingual_search_query ::
  "pystr \<Rightarrow> pystr \<Rightarrow> pystr list option \<Rightarrow> pyfloat \<Rightarrow> int \<Rightarrow> pystr" where
  "multilingual_search_query base_uri search_term languages min_confidence limit =
     multilingual_search_template (LGONT base_uri) (LGLANG base_uri) RDFS_ns search_term
       (ms_language_filter languages min_confidence)
     @ u ''\<newline>LIMIT '' @ str_int limit"

definition multilingual_search ::
  "pyrt \<Rightarrow> (pystr \<Rightarrow> pyexc + result_row list) \<Rightarrow> real \<Rightarrow> real \<Rightarrow> pystr \<Rightarrow>
   pystr \<Rightarrow> pystr list option \<Rightarrow> pyfloat \<Rightarrow> int \<Rightarrow> pyexc + SPARQLQueryResult" where
  "multilingual_search U engine start_time end_time base_uri search_term languages min_confidence limit =
     execute_query U engine start_time end_time
       (multilingual_search_query base_uri search_term languages min_confidence limit)"

text \<open>
  The escaping contract of the design document, for comparison with the rendered text.
  \<open>sparql_string_body s\<close> reads \<open>s\<close> as the inside of a double-quoted SPARQL string
  literal (the grammar's STRING\_LITERAL2: any character but the quote, the backslash
  and the line breaks, or a backslash escape) and returns the body and the text after
  the closing quote. The literal that the template opens before the search term is
  intact when the quote that closes it is the template's own.
\<close>

fun sparql_string_body :: "pystr \<Rightarrow> (pystr \<times> pystr) option" where
  "sparql_string_body [] = None"
| "sparql_string_body (c # cs) =
     (if c = 34 then Some ([], cs)
      else if c = 10 \<or> c = 13 then None
      else if c = 92 then
        (case cs of
           [] \<Rightarrow> None
         | d # ds \<Rightarrow>
             if d \<in> set (u ''tbnrf'') \<or> d = 92 \<or> d = 34 \<or> d = 39
             then map_option (\<lambda>(b, r). (c # d # b, r)) (sparql_string_body ds)
             else None)
      else map_option (\<lambda>(b, r). (c # b, r)) (sparql_string_body cs))"

definition search_literal_intact ::
  "pystr \<Rightarrow> pystr list option \<Rightarrow> pyfloat \<Rightarrow> int \<Rightarrow> pystr \<Rightarrow> bool" where
  "search_literal_intact base_uri languages min_confidence limit search_term =
     (case sparql_string_body
             (drop (length (ms_before (LGONT base_uri) (LGLANG base_uri) RDFS_ns))
                (multilingual_search_query base_uri search_term languages min_confidence limit)) of
        None \<Rightarrow> False
      | Some (body, rest) \<Rightarrow>
          rest = drop 1 (ms_after (ms_language_filter languages min_confidence))
                 @ u ''\<newline>LIMIT '' @ str_int limit)"

section \<open>The partitioned store (named\_graphs.py)\<close>

record RLHFFeedbackTrace =
  feedback_id :: pystr
  statement_id :: pystr
  feedback_type :: pystr
  quality_score :: pyfloat
  relevance_score :: pyfloat
  cultural_appropriateness :: pyfloat
  feedback_text :: "pystr option"
  annotator_id :: pystr
  timestamp :: pystr
  session_id :: "pystr option"

text \<open>
  The dataset of the manager: its six named graphs, and the number of values the
  manager has read from the clock and the random source so far.
\<close>

record named_graph_manager =
  main_graph :: rdf_graph
  provenance_graph :: rdf_graph
  annotators_graph :: rdf_graph
  languages_graph :: rdf_graph
  rlhf_graph :: rdf_graph
  audit_graph :: rdf_graph
  effects :: nat

text \<open>The truth value of an optional string: \<^verbatim>\<open>None\<close> and \<^verbatim>\<open>''\<close> are false.\<close>

fun truthy :: "pystr option \<Rightarrow> bool" where
  "truthy None = False"
| "truthy (Some s) = (s \<noteq> [])"

text \<open>\<^verbatim>\<open>_add_audit_entry\<close>; the details are the dictionary's items in insertion order.\<close>

definition add_audit_entry ::
  "pyrt \<Rightarrow> pyenv \<Rightarrow> pystr \<Rightarrow> pystr \<Rightarrow> (pystr \<times> pystr) list \<Rightarrow> named_graph_manager \<Rightarrow> named_graph_manager" where
  "add_audit_entry U env base_uri action details m =
     (let audit_id = uuid4 env (effects m);
          audit_uri = ns_term (LGPROV base_uri) (u ''audit_'' @ audit_id);
          g = graph_add (audit_graph m)
                (audit_uri, ns_term RDF_ns (u ''type''), ns_term (LGONT base_uri) (u ''AuditEntry''));
          g = graph_add g (audit_uri, ns_term (LGONT base_uri) (u ''action''), Literal action None None);
          g = graph_add g
                (audit_uri, ns_term DCTERMS_ns (u ''created''),
                 Literal (now_iso env (effects m + 1)) None (Some (XSD_ns @ u ''dateTime'')));
          g = foldl (\<lambda>g (key, v).
                       graph_add g (audit_uri, ns_term (LGPROV base_uri) (clean_uri_component U key),
                                    Literal v None None))
                g details
      in m\<lparr>audit_graph := g, effects := effects m + 2\<rparr>)"

text \<open>
  \<^verbatim>\<open>add_rlhf_feedback_trace\<close>. The body has no \<^verbatim>\<open>raise\<close> and checks nothing: it
  returns the feedback id after writing to the feedback graph and the audit graph.
\<close>

definition add_rlhf_feedback_trace ::
  "pyrt \<Rightarrow> pyenv \<Rightarrow> pystr \<Rightarrow> named_graph_manager \<Rightarrow> RLHFFeedbackTrace \<Rightarrow>
   named_graph_manager \<times> (pyexc + pystr)" where
  "add_rlhf_feedback_trace U env base_uri m feedback_trace =
     (let ont = LGONT base_uri;
          xsd_float = Some (XSD_ns @ u ''float'');
          feedback_uri = ns_term (LGRLHF base_uri) (u ''feedback_'' @ feedback_id feedback_trace);
          g = graph_add (rlhf_graph m) (feedback_uri, ns_term RDF_ns (u ''type''), ns_term ont (u ''RLHFFeedback''));
          g = graph_add g (feedback_uri, ns_term ont (u ''feedbackId''), Literal (feedback_id feedback_trace) None None);
          g = graph_add g (feedback_uri, ns_term ont (u ''statementId''), Literal (statement_id feedback_trace) None None);
          g = graph_add g (feedback_uri, ns_term ont (u ''feedbackType''), Literal (feedback_type feedback_trace) None None);
          g = graph_add g (feedback_uri, ns_term ont (u ''qualityScore''),
                           Literal (float_str (quality_score feedback_trace)) None xsd_float);
          g = graph_add g (feedback_uri, ns_term ont (u ''relevanceScore''),
                           Literal (float_str (relevance_score feedback_trace)) None xsd_float);
          g = graph_add g (feedback_uri, ns_term ont (u ''culturalAppropriateness''),
                           Literal (float_str (cultural_appropriateness feedback_trace)) None xsd_float);
          g = graph_add g (feedback_uri, ns_term DCTERMS_ns (u ''created''),
                           Literal (timestamp feedback_trace) None (Some (XSD_ns @ u ''dateTime'')));
          annotator_uri = ns_term (LGANG base_uri) (annotator_id feedback_trace);
          g = graph_add g (feedback_uri, ns_term ont (u ''providedBy''), annotator_uri);
          g = (if truthy (feedback_text feedback_trace)
               then graph_add g (feedback_uri, ns_term ont (u ''feedbackText''),
                                 Literal (the (feedback_text feedback_trace)) None None)
               else g);
          g = (if truthy (session_id feedback_trace)
               then graph_add g (feedback_uri, ns_term ont (u ''sessionId''),
                                 Literal (the (session_id feedback_trace)) None None)
               else g);
          m1 = add_audit_entry U env base_uri (u ''rlhf_feedback_added'')
                 [(u ''feedback_id'', feedback_id feedback_trace),
                  (u ''annotator_id'', annotator_id feedback_trace),
                  (u ''feedback_type'', feedback_type feedback_trace)]
                 (m\<lparr>rlhf_graph := g\<rparr>)
      in (m1, Inr (feedback_id feedback_trace)))"

text \<open>The audit entries of a graph: the subjects typed \<^verbatim>\<open>lgont:AuditEntry\<close>.\<close>

definition audit_entries :: "pystr \<Rightarrow> rdf_graph \<Rightarrow> node fset" where
  "audit_entries base_uri g =
     fst |`| ffilter (\<lambda>(s, p, ob). p = ns_term RDF_ns (u ''type'')
                                   \<and> ob = ns_term (LGONT base_uri) (u ''AuditEntry'')) g"

section \<open>The triple generator (triple\_generator.py)\<close>

record LimitGraphTriple =
  t_subject :: pystr
  t_predicate :: pystr
  t_object :: pystr
  t_confidence :: pyfloat
  t_source_language :: pystr
  t_annotator_id :: pystr
  t_timestamp :: pystr
  t_rlhf_feedback :: "(pystr \<times> pyval) list option"
  t_provenance :: "(pystr \<times> pystr) list option"

text \<open>
  The generator: its graph, and the number of values it has read from the clock and the
  random source so far.
\<close>

record generator =
  graph :: rdf_graph
  gen_effects :: nat

text \<open>\<^verbatim>\<open>convert_limitgraph_edge_to_triple\<close>\<close>

definition convert_limitgraph_edge_to_triple ::
  "pyrt \<Rightarrow> pyenv \<Rightarrow> generator \<Rightarrow> pystr \<Rightarrow> pystr \<Rightarrow> pystr \<Rightarrow> pyfloat \<Rightarrow> pystr \<Rightarrow>
   (pystr \<times> pyval) list option \<Rightarrow> pystr \<Rightarrow> pyexc + (generator \<times> LimitGraphTriple)" where
  "convert_limitgraph_edge_to_triple U env gen subject predicate object_value confidence annotator
       rlhf source_text =
     (let combined_text = subject @ [32] @ predicate @ [32] @ object_value @ [32] @ source_text in
      case detect_language U combined_text of
        Inl e \<Rightarrow> Inl e
      | Inr detected_language \<Rightarrow>
          let prov = [(u ''extraction_method'', u ''limitgraph_conversion''),
                      (u ''source_system'', u ''LIMIT-Graph''),
                      (u ''conversion_timestamp'', now_iso env (gen_effects gen)),
                      (u ''source_text'', source_text)]
          in Inr (gen\<lparr>gen_effects := gen_effects gen + 2\<rparr>,
                  \<lparr> t_subject = subject, t_predicate = predicate, t_object = object_value,
                    t_confidence = confidence, t_source_language = detected_language,
                    t_annotator_id = annotator, t_timestamp = now_iso env (gen_effects gen + 1),
                    t_rlhf_feedback = rlhf, t_provenance = Some prov \<rparr>))"

text \<open>\<^verbatim>\<open>_is_entity\<close>\<close>

definition is_entity :: "pystr \<Rightarrow> bool" where
  "is_entity v = (length v < 50 \<and> \<not> (\<exists>ch \<in> set [46, 33, 63, 44]. ch \<in> set v))"

text \<open>\<^verbatim>\<open>_add_provenance_triples\<close>\<close>

definition add_provenance_triples ::
  "pyrt \<Rightarrow> pystr \<Rightarrow> rdf_graph \<Rightarrow> node \<Rightarrow> LimitGraphTriple \<Rightarrow> node \<Rightarrow> node \<Rightarrow> node \<Rightarrow> rdf_graph" where
  "add_provenance_triples U base_uri g0 statement_uri triple subject_uri predicate_uri object_uri =
     (let ont = LGONT base_uri;
          xsd_string = Some (XSD_ns @ u ''string'');
          g = graph_add g0 (statement_uri, ns_term RDF_ns (u ''type''), ns_term ont (u ''Statement''));
          g = graph_add g (statement_uri, ns_term ont (u ''hasSubject''), subject_uri);
          g = graph_add g (statement_uri, ns_term ont (u ''hasPredicate''), predicate_uri);
          g = graph_add g (statement_uri, ns_term ont (u ''hasObject''), object_uri);
          g = graph_add g (statement_uri, ns_term ont (u ''confidence''),
                           Literal (float_str (t_confidence triple)) None (Some (XSD_ns @ u ''float'')));
          g = graph_add g (statement_uri, ns_term ont (u ''sourceLanguage''),
                           Literal (t_source_language triple) None xsd_string);
          g = graph_add g (statement_uri, ns_term ont (u ''annotatorId''),
                           Literal (t_annotator_id triple) None xsd_string);
          g = graph_add g (statement_uri, ns_term ont (u ''timestamp''),
                           Literal (t_timestamp triple) None (Some (XSD_ns @ u ''dateTime'')))
      in case t_provenance triple of
           None \<Rightarrow> g
         | Some items \<Rightarrow>
             foldl (\<lambda>g (key, v).
                      graph_add g (statement_uri, ns_term (LGPROV base_uri) (clean_uri_component U key),
                                   Literal v None xsd_string))
               g items)"

text \<open>
  \<^verbatim>\<open>_add_rlhf_triples\<close>; a feedback value is a number (\<^verbatim>\<open>float\<close> or \<^verbatim>\<open>int\<close>)
  or is written as its \<^verbatim>\<open>str\<close>.
\<close>

fun rlhf_literal :: "pyval \<Rightarrow> node" where
  "rlhf_literal (PFloat f) = Literal (float_str f) None (Some (XSD_ns @ u ''float''))"
| "rlhf_literal (PInt i) = Literal (str_int i) None (Some (XSD_ns @ u ''integer''))"
| "rlhf_literal (PStr s) = Literal s None (Some (XSD_ns @ u ''string''))"

definition add_rlhf_triples ::
  "pyrt \<Rightarrow> pyenv \<Rightarrow> pystr \<Rightarrow> generator \<Rightarrow> node \<Rightarrow> (pystr \<times> pyval) list \<Rightarrow> generator" where
  "add_rlhf_triples U env base_uri gen statement_uri rlhf =
     (let feedback_uri = ns_term (LGRLHF base_uri) (u ''feedback_'' @ uuid4 env (gen_effects gen));
          g = graph_add (graph gen)
                (feedback_uri, ns_term RDF_ns (u ''type''), ns_term (LGONT base_uri) (u ''RLHFFeedback''));
          g = graph_add g (statement_uri, ns_term (LGONT base_uri) (u ''hasRLHFFeedback''), feedback_uri);
          g = foldl (\<lambda>g (key, v).
                       graph_add g (feedback_uri, ns_term (LGRLHF base_uri) (clean_uri_component U key),
                                    rlhf_literal v))
                g rlhf
      in \<lparr> graph = g, gen_effects = gen_effects gen + 1 \<rparr>)"

text \<open>\<^verbatim>\<open>add_triple_to_graph\<close>; it returns the statement id.\<close>

definition object_term :: "pyrt \<Rightarrow> pystr \<Rightarrow> LimitGraphTriple \<Rightarrow> node" where
  "object_term U base_uri triple =
     (if is_entity (t_object triple)
      then ns_term (LGDATA base_uri) (clean_uri_component U (t_object triple))
      else Literal (t_object triple) (Some (t_source_language triple)) None)"

definition add_triple_to_graph ::
  "pyrt \<Rightarrow> pyenv \<Rightarrow> pystr \<Rightarrow> generator \<Rightarrow> LimitGraphTriple \<Rightarrow> generator \<times> pystr" where
  "add_triple_to_graph U env base_uri gen triple =
     (let subject_uri = ns_term (LGDATA base_uri) (clean_uri_component U (t_subject triple));
          predicate_uri = ns_term (LGONT base_uri) (clean_uri_component U (t_predicate triple));
          object_uri = object_term U base_uri triple;
          g = graph_add (graph gen) (subject_uri, predicate_uri, object_uri);
          new_id = uuid4 env (gen_effects gen);
          statement_uri = ns_term (LGPROV base_uri) (u ''statement_'' @ new_id);
          g = add_provenance_triples U base_uri g statement_uri triple subject_uri predicate_uri object_uri;
          gen1 = \<lparr> graph = g, gen_effects = gen_effects gen + 1 \<rparr>;
          gen2 = (case t_rlhf_feedback triple of
                    None \<Rightarrow> gen1
                  | Some rlhf \<Rightarrow> if rlhf \<noteq> [] then add_rlhf_triples U env base_uri gen1 statement_uri rlhf
                                 else gen1)
      in (gen2, new_id))"

text \<open>
  \<^verbatim>\<open>_extract_simple_triples\<close>. The three patterns are the raw strings of the source
  (92 is the backslash, 233 the e with acute accent):
  \<^verbatim>\<open>A\s+(\w+)\s+le\s+gusta[n]?\s+(.+?)(?:\.|$)\<close>,
  \<^verbatim>\<open>(\w+)\s+es\s+al.rgic[ao]\s+a\s+(.+?)(?:\.|$)\<close> and
  \<^verbatim>\<open>(\w+)\s+likes?\s+(.+?)(?:\.|$)\<close>.
\<close>

record triple_data =
  td_subject :: pystr
  td_predicate :: pystr
  td_object :: pystr
  td_confidence :: pyfloat
  td_source_doc :: pystr

definition pattern_es_gusta :: pystr where
  "pattern_es_gusta = u ''A'' @ [92] @ u ''s+('' @ [92] @ u ''w+)'' @ [92] @ u ''s+le'' @ [92] @
     u ''s+gusta[n]?'' @ [92] @ u ''s+(.+?)(?:'' @ [92] @ u ''.|$)''"

definition pattern_es_alergica :: pystr where
  "pattern_es_alergica = u ''('' @ [92] @ u ''w+)'' @ [92] @ u ''s+es'' @ [92] @ u ''s+al'' @ [233] @
     u ''rgic[ao]'' @ [92] @ u ''s+a'' @ [92] @ u ''s+(.+?)(?:'' @ [92] @ u ''.|$)''"

definition pattern_en_likes :: pystr where
  "pattern_en_likes = u ''('' @ [92] @ u ''w+)'' @ [92] @ u ''s+likes?'' @ [92] @
     u ''s+(.+?)(?:'' @ [92] @ u ''.|$)''"

definition match_triples :: "pyrt \<Rightarrow> pystr \<Rightarrow> pystr \<Rightarrow> pystr \<Rightarrow> pystr \<Rightarrow> triple_data list" where
  "match_triples U pattern predicate text doc_id =
     map (\<lambda>(g1, g2). \<lparr> td_subject = py_strip U g1, td_predicate = predicate,
                         td_object = py_strip U g2, td_confidence = FloatRepr (u ''0.9''),
                         td_source_doc = doc_id \<rparr>)
       (re_finditer U pattern text)"

definition extract_simple_triples :: "pyrt \<Rightarrow> pystr \<Rightarrow> pystr \<Rightarrow> pystr \<Rightarrow> triple_data list" where
  "extract_simple_triples U text doc_id language =
     (let triples =
            (if language = u ''es''
             then match_triples U pattern_es_gusta (u ''likes'') text doc_id
                  @ match_triples U pattern_es_alergica (u ''allergic_to'') text doc_id
             else if language = u ''en''
             then match_triples U pattern_en_likes (u ''likes'') text doc_id
             else [])
      in triples @ [\<lparr> td_subject = u ''document_'' @ doc_id, td_predicate = u ''contains_text'',
                       td_object = text, td_confidence = FloatRepr (u ''1.0''),
                       td_source_doc = doc_id \<rparr>])"

text \<open>
  \<^verbatim>\<open>convert_limitgraph_corpus\<close>. A document is a dictionary read at the keys
  \<^verbatim>\<open>_id\<close> and \<^verbatim>\<open>text\<close>, either of which may be absent. The loop state is the
  generator with the two accumulators of the source.
\<close>

record corpus_doc =
  d_id :: "pystr option"
  d_text :: "pystr option"

record conv_state =
  cs_gen :: generator
  cs_languages :: "pystr fset"
  cs_triples_added :: nat

text \<open>The body of the inner loop: build the triple, write it, count it.\<close>

definition write_extracted ::
  "pyrt \<Rightarrow> pyenv \<Rightarrow> pystr \<Rightarrow> pystr \<Rightarrow> pystr \<Rightarrow> conv_state \<Rightarrow> triple_data \<Rightarrow> pyexc + conv_state" where
  "write_extracted U env base_uri annotator text cs td =
     (case convert_limitgraph_edge_to_triple U env (cs_gen cs) (td_subject td) (td_predicate td)
             (td_object td) (td_confidence td) annotator None text of
        Inl e \<Rightarrow> Inl e
      | Inr (gen1, triple) \<Rightarrow>
          let (gen2, sid) = add_triple_to_graph U env base_uri gen1 triple
          in Inr (cs\<lparr>cs_gen := gen2, cs_triples_added := cs_triples_added cs + 1\<rparr>))"

fun write_all ::
  "pyrt \<Rightarrow> pyenv \<Rightarrow> pystr \<Rightarrow> pystr \<Rightarrow> pystr \<Rightarrow> conv_state \<Rightarrow> triple_data list \<Rightarrow> pyexc + conv_state" where
  "write_all U env base_uri annotator text cs [] = Inr cs"
| "write_all U env base_uri annotator text cs (td # tds) =
     (case write_extracted U env base_uri annotator text cs td of
        Inl e \<Rightarrow> Inl e
      | Inr cs1 \<Rightarrow> write_all U env base_uri annotator text cs1 tds)"

text \<open>
  The identifier of a document; Python evaluates the default of \<^verbatim>\<open>doc.get\<close> before
  the call, so one value is drawn for every document.
\<close>

definition doc_id_of :: "pyenv \<Rightarrow> nat \<Rightarrow> corpus_doc \<Rightarrow> pystr" where
  "doc_id_of env n doc = (case d_id doc of None \<Rightarrow> u ''doc_'' @ uuid4 env n | Some i \<Rightarrow> i)"

definition doc_text_of :: "corpus_doc \<Rightarrow> pystr" where
  "doc_text_of doc = (case d_text doc of None \<Rightarrow> [] | Some t \<Rightarrow> t)"

text \<open>The body of the loop over the documents.\<close>

definition convert_document ::
  "pyrt \<Rightarrow> pyenv \<Rightarrow> pystr \<Rightarrow> pystr \<Rightarrow> conv_state \<Rightarrow> corpus_doc \<Rightarrow> pyexc + conv_state" where
  "convert_document U env base_uri annotator cs doc =
     (let doc_id = doc_id_of env (gen_effects (cs_gen cs)) doc;
          gen0 = (cs_gen cs)\<lparr>gen_effects := gen_effects (cs_gen cs) + 1\<rparr>;
          text = doc_text_of doc
      in if text = [] then Inr (cs\<lparr>cs_gen := gen0\<rparr>)
         else
           case detect_language U text of
             Inl e \<Rightarrow> Inl e
           | Inr language \<Rightarrow>
               let doc_uri = ns_term (LGDATA base_uri) (u ''document_'' @ clean_uri_component U doc_id);
                   ont = LGONT base_uri;
                   g = graph_add (graph gen0) (doc_uri, ns_term RDF_ns (u ''type''), ns_term ont (u ''Document''));
                   g = graph_add g (doc_uri, ns_term RDFS_ns (u ''label''),
                                    Literal (u ''Document '' @ doc_id) (Some language) None);
                   g = graph_add g (doc_uri, ns_term ont (u ''content''), Literal text (Some language) None);
                   g = graph_add g (doc_uri, ns_term ont (u ''documentId''),
                                    Literal doc_id None (Some (XSD_ns @ u ''string'')));
                   g = graph_add g (doc_uri, ns_term ont (u ''language''),
                                    Literal language None (Some (XSD_ns @ u ''string'')));
                   extracted_triples = extract_simple_triples U text doc_id language
               in write_all U env base_uri annotator text
                    (cs\<lparr>cs_gen := gen0\<lparr>graph := g\<rparr>, cs_languages := finsert language (cs_languages cs)\<rparr>)
                    extracted_triples)"

fun convert_documents ::
  "pyrt \<Rightarrow> pyenv \<Rightarrow> pystr \<Rightarrow> pystr \<Rightarrow> conv_state \<Rightarrow> corpus_doc list \<Rightarrow> pyexc + conv_state" where
  "convert_documents U env base_uri annotator cs [] = Inr cs"
| "convert_documents U env base_uri annotator cs (doc # docs) =
     (case convert_document U env base_uri annotator cs doc of
        Inl e \<Rightarrow> Inl e
      | Inr cs1 \<Rightarrow> convert_documents U env base_uri annotator cs1 docs)"

record conversion_metadata =
  cm_conversion_timestamp :: pystr
  cm_documents_processed :: nat
  cm_triples_generated :: nat
  cm_languages_detected :: "pystr fset"
  cm_annotators :: "pystr fset"

record RDFConversionResult =
  res_graph :: rdf_graph
  triples_count :: nat
  languages_detected :: "pystr fset"
  annotators :: "pystr fset"
  res_metadata :: conversion_metadata

definition convert_limitgraph_corpus ::
  "pyrt \<Rightarrow> pyenv \<Rightarrow> pystr \<Rightarrow> generator \<Rightarrow> corpus_doc list \<Rightarrow> pystr \<Rightarrow>
   pyexc + (generator \<times> RDFConversionResult)" where
  "convert_limitgraph_corpus U env base_uri gen corpus_data annotator =
     (case convert_documents U env base_uri annotator
             \<lparr> cs_gen = gen, cs_languages = {||}, cs_triples_added = 0 \<rparr> corpus_data of
        Inl e \<Rightarrow> Inl e
      | Inr cs \<Rightarrow>
          let gen1 = cs_gen cs;
              md = \<lparr> cm_conversion_timestamp = now_iso env (gen_effects gen1),
                     cm_documents_processed = length corpus_data,
                     cm_triples_generated = cs_triples_added cs,
                     cm_languages_detected = cs_languages cs,
                     cm_annotators = {|annotator|} \<rparr>;
              gen2 = gen1\<lparr>gen_effects := gen_effects gen1 + 1\<rparr>
          in Inr (gen2, \<lparr> res_graph = graph gen2, triples_count = cs_triples_added cs,
                          languages_detected = cs_languages cs, annotators = {|annotator|},
                          res_metadata = md \<rparr>))"

text \<open>
  What \<^verbatim>\<open>add_triple_to_graph\<close> leaves in a graph for a triple, under the
  statement node \<open>st\<close>: the fact itself, and the statement with its subject, predicate,
  object, confidence, source language, annotator, timestamp and provenance details.
\<close>

definition triple_written :: "pyrt \<Rightarrow> pystr \<Rightarrow> rdf_graph \<Rightarrow> node \<Rightarrow> LimitGraphTriple \<Rightarrow> bool" where
  "triple_written U base_uri g st triple =
     (let ont = LGONT base_uri;
          xsd_string = Some (XSD_ns @ u ''string'');
          subject_uri = ns_term (LGDATA base_uri) (clean_uri_component U (t_subject triple));
          predicate_uri = ns_term ont (clean_uri_component U (t_predicate triple));
          object_uri = object_term U base_uri triple
      in (subject_uri, predicate_uri, object_uri) |\<in>| g
         \<and> (st, ns_term RDF_ns (u ''type''), ns_term ont (u ''Statement'')) |\<in>| g
         \<and> (st, ns_term ont (u ''hasSubject''), subject_uri) |\<in>| g
         \<and> (st, ns_term ont (u ''hasPredicate''), predicate_uri) |\<in>| g
         \<and> (st, ns_term ont (u ''hasObject''), object_uri) |\<in>| g
         \<and> (st, ns_term ont (u ''confidence''),
              Literal (float_str (t_confidence triple)) None (Some (XSD_ns @ u ''float''))) |\<in>| g
         \<and> (st, ns_term ont (u ''sourceLanguage''), Literal (t_source_language triple) None xsd_string) |\<in>| g
         \<and> (st, ns_term ont (u ''annotatorId''), Literal (t_annotator_id triple) None xsd_string) |\<in>| g
         \<and> (st, ns_term ont (u ''timestamp''),
              Literal (t_timestamp triple) None (Some (XSD_ns @ u ''dateTime''))) |\<in>| g
         \<and> (case t_provenance triple of
               None \<Rightarrow> True
             | Some items \<Rightarrow>
                 list_all (\<lambda>(key, v).
                    (st, ns_term (LGPROV base_uri) (clean_uri_component U key), Literal v None xsd_string) |\<in>| g)
                   items))"

text \<open>
  The source languages that a graph records beyond those of an earlier graph \<open>g0\<close> are
  codes of the classifier's lexicon.
\<close>

definition recorded_languages_ok :: "pystr \<Rightarrow> rdf_graph \<Rightarrow> rdf_graph \<Rightarrow> bool" where
  "recorded_languages_ok base_uri g0 g =
     (\<forall>s l. (s, ns_term (LGONT base_uri) (u ''sourceLanguage''), l) |\<in>| g \<longrightarrow>
            (s, ns_term (LGONT base_uri) (u ''sourceLanguage''), l) |\<in>| g0
            \<or> (\<exists>code \<in> set classifier_codes. l = Literal code None (Some (XSD_ns @ u ''string''))))"

section \<open>Concrete inputs\<close>

definition default_base :: pystr where
  "default_base = u ''http://limitgraph.org/''"

definition sample_env :: pyenv where
  "sample_env = \<lparr> uuid4 = (\<lambda>n. u ''uuid-'' @ str_nat n), now_iso = (\<lambda>n. u ''2025-01-01T00:00:00'') \<rparr>"

definition empty_manager :: named_graph_manager where
  "empty_manager = \<lparr> main_graph = {||}, provenance_graph = {||}, annotators_graph = {||},
     languages_graph = {||}, rlhf_graph = {||}, audit_graph = {||}, effects = 0 \<rparr>"

text \<open>A feedback trace of an unrecognised kind, and one of a recognised kind.\<close>

definition bogus_trace :: RLHFFeedbackTrace where
  "bogus_trace = \<lparr> feedback_id = u ''fb_001'', statement_id = u ''statement_001'',
     feedback_type = u ''bogus'', quality_score = FloatRepr (u ''0.9''),
     relevance_score = FloatRepr (u ''0.85''), cultural_appropriateness = FloatRepr (u ''0.95''),
     feedback_text = None, annotator_id = u ''ann_001'', timestamp = u ''2025-01-01T00:00:00'',
     session_id = None \<rparr>"

definition positive_trace :: RLHFFeedbackTrace where
  "positive_trace = bogus_trace\<lparr>feedback_type := u ''positive''\<rparr>"

definition empty_generator :: generator where
  "empty_generator = \<lparr> graph = {||}, gen_effects = 0 \<rparr>"

definition doc_bob :: corpus_doc where
  "doc_bob = \<lparr> d_id = Some (u ''d2''), d_text = Some (u ''Bob owns a red car.'') \<rparr>"

definition doc_empty :: corpus_doc where
  "doc_empty = \<lparr> d_id = Some (u ''d0''), d_text = Some [] \<rparr>"

section \<open>Facts about the runtime for evaluation\<close>

lemma ascii_rt_simps:
  "str_lower ascii_runtime = map ascii_lower"
  "cp_isspace ascii_runtime = ascii_isspace"
  "cp_isalnum ascii_runtime = ascii_isalnum"
  "re_finditer ascii_runtime = (\<lambda>p s. [])"
  by (simp_all add: ascii_runtime_def)

section \<open>Identifier cleaning\<close>

lemma clean_uri_component_eq:
  "clean_uri_component U label =
     filter (\<lambda>c. cp_isalnum U c \<or> c = 95) (map (\<lambda>c. if c = 32 \<or> c = 45 then 95 else c) label)"
proof -
  have "py_replace 45 95 (py_replace 32 95 label) = map (\<lambda>c. if c = 32 \<or> c = 45 then 95 else c) label"
    by (simp add: py_replace_def)
  then show ?thesis by (simp add: clean_uri_component_def)
qed

lemma program_namespaces_apart:
  assumes "n \<in> set (program_namespaces base_uri)" and "n' \<in> set (program_namespaces base_uri)"
    and "n \<noteq> n'"
  shows "n @ x \<noteq> n' @ y"
  using assms
  by (auto simp: program_namespaces_def LGONT_def LGDATA_def LGPROV_def LGRLHF_def LGANG_def
        LGLANG_def u_def)

text \<open>
  Claim C7, as the code has it. For every runtime and every label, the cleaning step
  (a) turns every space (code point 32) and every hyphen (45) into the underscore (95),
  and no other whitespace character: it is the filter below applied to that replacement;
  (b) keeps only alphanumerics and underscores; and (c) the minted identifier is the
  namespace followed by the cleaned label. So the same label minted in two different
  namespaces gives two different identifiers, and two identifiers minted in two
  different namespaces of the program (over one base URI) are different whatever the two
  labels are: after the base URI the six namespaces begin with six different letters.
\<close>

theorem clean_uri_component_mint:
  "clean_uri_component U label =
     filter (\<lambda>c. cp_isalnum U c \<or> c = 95) (map (\<lambda>c. if c = 32 \<or> c = 45 then 95 else c) label)
   \<and> (\<forall>c \<in> set (clean_uri_component U label). cp_isalnum U c \<or> c = 95)
   \<and> mint U ns label = URIRef (ns @ clean_uri_component U label)
   \<and> (ns \<noteq> ns' \<longrightarrow> mint U ns label \<noteq> mint U ns' label)
   \<and> (\<forall>n \<in> set (program_namespaces base_uri). \<forall>n' \<in> set (program_namespaces base_uri).
         n \<noteq> n' \<longrightarrow> mint U n label \<noteq> mint U n' label')"
proof (intro conjI)
  show "clean_uri_component U label =
     filter (\<lambda>c. cp_isalnum U c \<or> c = 95) (map (\<lambda>c. if c = 32 \<or> c = 45 then 95 else c) label)"
    by (rule clean_uri_component_eq)
  show "\<forall>c \<in> set (clean_uri_component U label). cp_isalnum U c \<or> c = 95"
    by (simp add: clean_uri_component_eq)
  show "mint U ns label = URIRef (ns @ clean_uri_component U label)"
    by (simp add: mint_def ns_term_def)
  show "ns \<noteq> ns' \<longrightarrow> mint U ns label \<noteq> mint U ns' label"
    by (simp add: mint_def ns_term_def)
  show "\<forall>n \<in> set (program_namespaces base_uri). \<forall>n' \<in> set (program_namespaces base_uri).
         n \<noteq> n' \<longrightarrow> mint U n label \<noteq> mint U n' label'"
  proof (intro ballI impI)
    fix n n' assume "n \<in> set (program_namespaces base_uri)"
      and "n' \<in> set (program_namespaces base_uri)" and "n \<noteq> n'"
    then show "mint U n label \<noteq> mint U n' label'"
      using program_namespaces_apart [of n base_uri n'] by (simp add: mint_def ns_term_def)
  qed
qed

text \<open>
  The label \<^verbatim>\<open>red-car 7!\<close> minted in the data and in the ontology namespace of the
  default base URI, and beside it the label \<^verbatim>\<open>likes\<close> minted in the ontology
  namespace.
\<close>

theorem clean_uri_component_mint_witness:
  "LGDATA (u ''http://limitgraph.org/'') \<noteq> LGONT (u ''http://limitgraph.org/'')
   \<and> clean_uri_component ascii_runtime (u ''red-car 7!'') = u ''red_car_7''
   \<and> list_all (\<lambda>c. cp_isalnum ascii_runtime c \<or> c = 95) (u ''red_car_7'')
   \<and> mint ascii_runtime (LGDATA (u ''http://limitgraph.org/'')) (u ''red-car 7!'')
       = URIRef (LGDATA (u ''http://limitgraph.org/'') @ u ''red_car_7'')
   \<and> mint ascii_runtime (LGDATA (u ''http://limitgraph.org/'')) (u ''red-car 7!'')
       \<noteq> mint ascii_runtime (LGONT (u ''http://limitgraph.org/'')) (u ''red-car 7!'')
   \<and> LGDATA (u ''http://limitgraph.org/'') \<in> set (program_namespaces (u ''http://limitgraph.org/''))
   \<and> LGONT (u ''http://limitgraph.org/'') \<in> set (program_namespaces (u ''http://limitgraph.org/''))
   \<and> mint ascii_runtime (LGDATA (u ''http://limitgraph.org/'')) (u ''red-car 7!'')
       \<noteq> mint ascii_runtime (LGONT (u ''http://limitgraph.org/'')) (u ''likes'')"
proof -
  have ne: "LGDATA (u ''http://limitgraph.org/'') \<noteq> LGONT (u ''http://limitgraph.org/'')"
    by (simp add: LGDATA_def LGONT_def u_def)
  have c: "clean_uri_component ascii_runtime (u ''red-car 7!'') = u ''red_car_7''"
    by (simp add: clean_uri_component_def py_replace_def ascii_rt_simps ascii_isalnum_def u_def)
  have m1: "LGDATA (u ''http://limitgraph.org/'') \<in> set (program_namespaces (u ''http://limitgraph.org/''))"
    and m2: "LGONT (u ''http://limitgraph.org/'') \<in> set (program_namespaces (u ''http://limitgraph.org/''))"
    by (simp_all add: program_namespaces_def)
  note T = clean_uri_component_mint [where U = ascii_runtime and label = "u ''red-car 7!''"
      and ns = "LGDATA (u ''http://limitgraph.org/'')" and ns' = "LGONT (u ''http://limitgraph.org/'')"
      and base_uri = "u ''http://limitgraph.org/''" and label' = "u ''likes''"]
  note t2 = T [THEN conjunct2, THEN conjunct1]
  note t3 = T [THEN conjunct2, THEN conjunct2, THEN conjunct1]
  note t4 = T [THEN conjunct2, THEN conjunct2, THEN conjunct2, THEN conjunct1, THEN mp, OF ne]
  note t5 = T [THEN conjunct2, THEN conjunct2, THEN conjunct2, THEN conjunct2,
               THEN bspec, OF m1, THEN bspec, OF m2, THEN mp, OF ne]
  have la: "list_all (\<lambda>c. cp_isalnum ascii_runtime c \<or> c = 95) (u ''red_car_7'')"
    using t2 unfolding c by (simp add: list_all_iff)
  have mt: "mint ascii_runtime (LGDATA (u ''http://limitgraph.org/'')) (u ''red-car 7!'')
       = URIRef (LGDATA (u ''http://limitgraph.org/'') @ u ''red_car_7'')"
    using t3 unfolding c .
  show ?thesis using ne c la mt t4 m1 m2 t5 by (intro conjI)
qed

text \<open>
  Claim C7 as written fails at part (a). The tab (code point 9) is whitespace; in the
  label \<^verbatim>\<open>a<TAB>b\<close> the code drops it, where the rule of the design document puts
  the connector.
\<close>

theorem clean_uri_component_tab_counterexample:
  "cp_isspace ascii_runtime 9
   \<and> clean_uri_component ascii_runtime [97, 9, 98] = [97, 98]
   \<and> spec_clean ascii_runtime [97, 9, 98] = [97, 95, 98]"
  by (simp add: clean_uri_component_def spec_clean_def py_replace_def ascii_rt_simps
        ascii_isalnum_def ascii_isspace_def)

section \<open>The query-shape classifier\<close>

text \<open>
  Claim C8 fails in the code. The classifier does not read the leading keyword: it looks
  for \<^verbatim>\<open>select\<close>, then \<^verbatim>\<open>construct\<close>, \<^verbatim>\<open>ask\<close> and \<^verbatim>\<open>describe\<close>
  anywhere in the lower-cased text and returns the first one found. The first query below
  begins with CONSTRUCT and is classified as a selection, because of the variable name
  \<^verbatim>\<open>?selected\<close> later in its text; the same query with the variable \<^verbatim>\<open>?o\<close> is a
  construction. An ASK query with the variable \<^verbatim>\<open>?constructed\<close> is classified as a
  construction, and a DESCRIBE query of the resource \<^verbatim>\<open>task1\<close> as an existence check.
\<close>

theorem determine_query_type_construct_as_select:
  "prefix (u ''construct'') (str_lower ascii_runtime (u ''CONSTRUCT { ?s ?p ?o } WHERE { ?s ?p ?selected }''))
   \<and> determine_query_type ascii_runtime (u ''CONSTRUCT { ?s ?p ?o } WHERE { ?s ?p ?selected }'') = u ''select''
   \<and> determine_query_type ascii_runtime (u ''CONSTRUCT { ?s ?p ?o } WHERE { ?s ?p ?o }'') = u ''construct''
   \<and> prefix (u ''ask'') (str_lower ascii_runtime (u ''ASK { ?s ?p ?constructed }''))
   \<and> determine_query_type ascii_runtime (u ''ASK { ?s ?p ?constructed }'') = u ''construct''
   \<and> prefix (u ''describe'') (str_lower ascii_runtime (u ''DESCRIBE <http://limitgraph.org/data/task1>''))
   \<and> determine_query_type ascii_runtime (u ''DESCRIBE <http://limitgraph.org/data/task1>'') = u ''ask''"
  by (simp add: determine_query_type_def ascii_rt_simps ascii_lower_def u_def)

section \<open>The language classifier\<close>

lemma hits_pos_words: "0 < hits words patterns \<Longrightarrow> words \<noteq> []"
  by (auto simp: hits_def)

lemma language_scores_ok:
  "\<exists>scores. language_scores words pats = Inr scores \<and> fst ` set scores \<subseteq> fst ` set pats"
proof (induction pats)
  case Nil
  then show ?case by simp
next
  case (Cons p pats)
  obtain lang patterns where p: "p = (lang, patterns)" by (cases p)
  from Cons obtain scores where s: "language_scores words pats = Inr scores"
    "fst ` set scores \<subseteq> fst ` set pats" by blast
  show ?case
  proof (cases "0 < hits words patterns")
    case True
    then have "words \<noteq> []" by (rule hits_pos_words)
    then show ?thesis using True s p by (auto simp: py_truediv_def Let_def)
  next
    case False
    then show ?thesis using s p by (auto simp: Let_def)
  qed
qed

lemma language_scores_no_hits:
  "\<forall>(lang, patterns) \<in> set pats. hits words patterns = 0 \<Longrightarrow> language_scores words pats = Inr []"
  by (induction pats) (auto simp: Let_def)

lemma max_by_score_mem: "max_by_score best xs \<in> set (best # xs)"
proof (induction xs arbitrary: best)
  case Nil
  then show ?case by simp
next
  case (Cons x xs)
  have "max_by_score (if snd best < snd x then x else best) xs
          \<in> set ((if snd best < snd x then x else best) # xs)"
    by (rule Cons.IH)
  then show ?case by (auto split: if_splits)
qed

lemma classifier_codes_eq: "classifier_codes = [u ''es'', u ''ar'', u ''id'', u ''en'']"
  by (simp add: classifier_codes_def language_patterns_def)

lemma detect_language_code:
  "\<exists>code. detect_language U text = Inr code \<and> code \<in> set classifier_codes"
proof (cases "text = []")
  case True
  then show ?thesis by (simp add: detect_language_def classifier_codes_eq)
next
  case False
  let ?words = "py_split U (str_lower U text)"
  obtain scores where s: "language_scores ?words language_patterns = Inr scores"
    "fst ` set scores \<subseteq> fst ` set language_patterns"
    using language_scores_ok by blast
  show ?thesis
  proof (cases scores)
    case Nil
    then show ?thesis using False s by (simp add: detect_language_def classifier_codes_eq)
  next
    case (Cons x xs)
    have "max_by_score x xs \<in> set scores" using max_by_score_mem[of x xs] Cons by simp
    then have "fst (max_by_score x xs) \<in> set classifier_codes"
      using s(2) by (auto simp: classifier_codes_def)
    then show ?thesis using False s Cons by (simp add: detect_language_def)
  qed
qed

lemma detect_language_no_hits:
  assumes "\<forall>(lang, patterns) \<in> set language_patterns. hits (py_split U (str_lower U text)) patterns = 0"
  shows "detect_language U text = Inr (u ''en'')"
  using language_scores_no_hits[OF assms] by (simp add: detect_language_def)

lemma py_split_acc_space: "\<forall>c \<in> set s. sp c \<Longrightarrow> py_split_acc sp [] s = []"
  by (induction s) auto

lemma hits_Nil: "hits [] patterns = 0" by (simp add: hits_def)

lemma classifier_codes_supported: "set classifier_codes \<subseteq> set supported_languages"
  by (simp add: classifier_codes_eq supported_languages_def)

text \<open>
  Claim C5. For every runtime and every text, empty or not, the classifier returns a
  code, and the code is one of es, ar, id, en, the codes of its lexicon, all of which
  the language table of the store lists. When no language of the lexicon has a hit among
  the tokens of the text, or when the text is empty, the code is en. The classifier reads
  nothing but its argument (no clock, no random source, no store), so the same text
  yields the same code.
\<close>

theorem detect_language_supported:
  "(\<exists>code. detect_language U text = Inr code \<and> code \<in> set classifier_codes
            \<and> code \<in> {u ''es'', u ''ar'', u ''id'', u ''en''} \<and> code \<in> set supported_languages)
   \<and> ((\<forall>(lang, patterns) \<in> set language_patterns.
          hits (py_split U (str_lower U text)) patterns = 0)
        \<longrightarrow> detect_language U text = Inr (u ''en''))
   \<and> (text = [] \<longrightarrow> detect_language U text = Inr (u ''en''))"
proof -
  obtain code where c: "detect_language U text = Inr code" "code \<in> set classifier_codes"
    using detect_language_code by blast
  then have "code \<in> {u ''es'', u ''ar'', u ''id'', u ''en''}" "code \<in> set supported_languages"
    using classifier_codes_supported by (auto simp: classifier_codes_eq)
  moreover have "text = [] \<longrightarrow> detect_language U text = Inr (u ''en'')"
    by (simp add: detect_language_def)
  ultimately show ?thesis using c detect_language_no_hits by blast
qed

lemma split_bob: "py_split ascii_runtime (str_lower ascii_runtime (u ''Bob owns a red car.''))
   = [u ''bob'', u ''owns'', u ''a'', u ''red'', u ''car.'']"
  by (simp add: py_split_def ascii_rt_simps ascii_lower_def ascii_isspace_def u_def)

lemma hits_bob: "\<forall>(lang, patterns) \<in> set language_patterns.
     hits (py_split ascii_runtime (str_lower ascii_runtime (u ''Bob owns a red car.''))) patterns = 0"
  unfolding split_bob by (simp add: language_patterns_def hits_def u_def)

text \<open>A text without stop words of any lexicon, and the empty text.\<close>

theorem detect_language_supported_witness:
  "list_all (\<lambda>(lang, patterns).
      hits (py_split ascii_runtime (str_lower ascii_runtime (u ''Bob owns a red car.''))) patterns = 0)
     language_patterns
   \<and> detect_language ascii_runtime (u ''Bob owns a red car.'') = Inr (u ''en'')
   \<and> detect_language ascii_runtime [] = Inr (u ''en'')"
proof -
  note t = detect_language_supported [of ascii_runtime "u ''Bob owns a red car.''"]
  note r1 = t [THEN conjunct2, THEN conjunct1, THEN mp, OF hits_bob]
  note r2 = detect_language_supported [of ascii_runtime "[]", THEN conjunct2, THEN conjunct2, THEN mp, OF refl]
  have "list_all (\<lambda>(lang, patterns).
      hits (py_split ascii_runtime (str_lower ascii_runtime (u ''Bob owns a red car.''))) patterns = 0)
     language_patterns"
    using hits_bob by (simp only: list_all_iff)
  then show ?thesis using r1 r2 by (intro conjI)
qed

text \<open>
  Claim C9. For every runtime and every text the classifier returns a code and never
  raises: the division is reached only with a positive number of hits, and then the
  token list is not empty. When the lower-cased text consists of whitespace only, the
  token list is empty, no number of hits is positive, and the code is en.
\<close>

theorem detect_language_total:
  "(\<exists>code. detect_language U text = Inr code)
   \<and> detect_language U text \<noteq> Inl ZeroDivisionError
   \<and> (\<forall>patterns. 0 < hits (py_split U (str_lower U text)) patterns
         \<longrightarrow> py_truediv (hits (py_split U (str_lower U text)) patterns)
                (length (py_split U (str_lower U text))) \<noteq> Inl ZeroDivisionError)
   \<and> ((\<forall>c \<in> set (str_lower U text). cp_isspace U c)
        \<longrightarrow> py_split U (str_lower U text) = []
            \<and> (\<forall>patterns. \<not> 0 < hits (py_split U (str_lower U text)) patterns)
            \<and> detect_language U text = Inr (u ''en''))"
proof -
  obtain code where c: "detect_language U text = Inr code"
    using detect_language_code by blast
  have d: "\<forall>patterns. 0 < hits (py_split U (str_lower U text)) patterns
         \<longrightarrow> py_truediv (hits (py_split U (str_lower U text)) patterns)
                (length (py_split U (str_lower U text))) \<noteq> Inl ZeroDivisionError"
    using hits_pos_words by (auto simp: py_truediv_def)
  have w: "(\<forall>c \<in> set (str_lower U text). cp_isspace U c)
        \<longrightarrow> py_split U (str_lower U text) = []
            \<and> (\<forall>patterns. \<not> 0 < hits (py_split U (str_lower U text)) patterns)
            \<and> detect_language U text = Inr (u ''en'')"
  proof
    assume ws: "\<forall>c \<in> set (str_lower U text). cp_isspace U c"
    then have e: "py_split U (str_lower U text) = []"
      by (simp add: py_split_def py_split_acc_space)
    then have h: "\<forall>patterns. \<not> 0 < hits (py_split U (str_lower U text)) patterns"
      by (simp add: hits_Nil)
    then have "detect_language U text = Inr (u ''en'')"
      by (intro detect_language_no_hits) auto
    then show "py_split U (str_lower U text) = []
            \<and> (\<forall>patterns. \<not> 0 < hits (py_split U (str_lower U text)) patterns)
            \<and> detect_language U text = Inr (u ''en'')"
      using e h by blast
  qed
  have a: "\<exists>code. detect_language U text = Inr code" using c by blast
  have b: "detect_language U text \<noteq> Inl ZeroDivisionError" using c by simp
  show ?thesis using a b d w by (intro conjI) assumption+
qed

text \<open>The text made of a space, a tab and a space.\<close>

theorem detect_language_total_witness:
  "list_all (cp_isspace ascii_runtime) (str_lower ascii_runtime [32, 9, 32])
   \<and> [32, 9, 32] \<noteq> ([] :: pystr)
   \<and> py_split ascii_runtime (str_lower ascii_runtime [32, 9, 32]) = []
   \<and> detect_language ascii_runtime [32, 9, 32] = Inr (u ''en'')"
proof -
  have h: "\<forall>c \<in> set (str_lower ascii_runtime [32, 9, 32]). cp_isspace ascii_runtime c"
    by (simp add: ascii_rt_simps ascii_lower_def ascii_isspace_def)
  show ?thesis using h detect_language_total [of ascii_runtime "[32, 9, 32]"]
    by (simp add: list_all_iff)
qed

section \<open>Query execution\<close>



section \<open>Rendering the multilingual search\<close>

lemma sparql_string_body_plain:
  "\<forall>c \<in> set t. c \<noteq> 34 \<and> c \<noteq> 92 \<and> c \<noteq> 10 \<and> c \<noteq> 13 \<Longrightarrow>
   sparql_string_body (t @ 34 # rest) = Some (t, rest)"
  by (induction t) auto

lemma ms_after_quote: "ms_after lf = 34 # drop 1 (ms_after lf)"
  by (simp add: ms_after_def u_def)

lemma multilingual_search_query_split:
  "multilingual_search_query base_uri t langs mc limit =
     ms_before (LGONT base_uri) (LGLANG base_uri) RDFS_ns @ t @
     34 # (drop 1 (ms_after (ms_language_filter langs mc)) @ u ''\<newline>LIMIT '' @ str_int limit)"
proof -
  have "ms_after (ms_language_filter langs mc) @ u ''\<newline>LIMIT '' @ str_int limit
        = 34 # (drop 1 (ms_after (ms_language_filter langs mc)) @ u ''\<newline>LIMIT '' @ str_int limit)"
    using ms_after_quote [of "ms_language_filter langs mc"]
    by (metis append_Cons)
  then show ?thesis
    by (simp add: multilingual_search_query_def multilingual_search_template_def)
qed

lemma search_literal_intact_eq:
  "search_literal_intact base_uri langs mc limit t =
     (case sparql_string_body
             (t @ 34 # (drop 1 (ms_after (ms_language_filter langs mc)) @ u ''\<newline>LIMIT '' @ str_int limit)) of
        None \<Rightarrow> False
      | Some (body, rest) \<Rightarrow>
          rest = drop 1 (ms_after (ms_language_filter langs mc)) @ u ''\<newline>LIMIT '' @ str_int limit)"
  unfolding search_literal_intact_def multilingual_search_query_split by simp

text \<open>
  Claim C1, as the code has it. For every search term, \<^verbatim>\<open>multilingual_search\<close>
  writes the term into the query as it is, between the text before the field and the
  text after it, with no escaping. The string literal that holds the term is intact when
  the term has no double quote (34), backslash (92), line feed (10) or carriage return
  (13).
\<close>

theorem multilingual_search_query_verbatim:
  "multilingual_search_query base_uri t langs mc limit =
     ms_before (LGONT base_uri) (LGLANG base_uri) RDFS_ns @ t @
     ms_after (ms_language_filter langs mc) @ u ''\<newline>LIMIT '' @ str_int limit
   \<and> ((\<forall>c \<in> set t. c \<noteq> 34 \<and> c \<noteq> 92 \<and> c \<noteq> 10 \<and> c \<noteq> 13)
        \<longrightarrow> search_literal_intact base_uri langs mc limit t)"
proof -
  have "multilingual_search_query base_uri t langs mc limit =
     ms_before (LGONT base_uri) (LGLANG base_uri) RDFS_ns @ t @
     ms_after (ms_language_filter langs mc) @ u ''\<newline>LIMIT '' @ str_int limit"
    by (simp add: multilingual_search_query_def multilingual_search_template_def)
  moreover have "(\<forall>c \<in> set t. c \<noteq> 34 \<and> c \<noteq> 92 \<and> c \<noteq> 10 \<and> c \<noteq> 13)
        \<longrightarrow> search_literal_intact base_uri langs mc limit t"
    by (simp add: search_literal_intact_eq sparql_string_body_plain)
  ultimately show ?thesis by (rule conjI)
qed

lemma manzanas_plain: "\<forall>c \<in> set (u ''manzanas''). c \<noteq> 34 \<and> c \<noteq> 92 \<and> c \<noteq> 10 \<and> c \<noteq> 13"
  by (simp add: u_def)

text \<open>The search term of the source's own example, \<^verbatim>\<open>manzanas\<close>.\<close>

theorem multilingual_search_query_verbatim_witness:
  "list_all (\<lambda>c. c \<noteq> 34 \<and> c \<noteq> 92 \<and> c \<noteq> 10 \<and> c \<noteq> 13) (u ''manzanas'')
   \<and> search_literal_intact (u ''http://limitgraph.org/'') (Some [u ''es'', u ''en''])
        (FloatRepr (u ''0.5'')) 50 (u ''manzanas'')"
proof -
  note r = multilingual_search_query_verbatim [THEN conjunct2, THEN mp, OF manzanas_plain]
  have "list_all (\<lambda>c. c \<noteq> 34 \<and> c \<noteq> 92 \<and> c \<noteq> 10 \<and> c \<noteq> 13) (u ''manzanas'')"
    using manzanas_plain by (simp only: list_all_iff)
  then show ?thesis using r by (rule conjI)
qed

text \<open>
  Claim C1 as written fails: nothing is escaped. For the search term \<^verbatim>\<open>O"Brien\<close>
  the literal opened by the template ends at the quote of the term, after \<^verbatim>\<open>O\<close>,
  and the rest of the term stands outside the literal in the query.
\<close>

theorem multilingual_search_quote_counterexample:
  "\<not> search_literal_intact (u ''http://limitgraph.org/'') None (FloatRepr (u ''0.5'')) 50 (u ''O\"Brien'')
   \<and> map_option fst (sparql_string_body
        (drop (length (ms_before (LGONT (u ''http://limitgraph.org/'')) (LGLANG (u ''http://limitgraph.org/'')) RDFS_ns))
           (multilingual_search_query (u ''http://limitgraph.org/'') (u ''O\"Brien'') None (FloatRepr (u ''0.5'')) 50)))
       = Some (u ''O'')"
proof -
  have s: "sparql_string_body (u ''O\"Brien'' @ 34 # R) = Some (u ''O'', u ''Brien'' @ 34 # R)" for R
    by (simp add: u_def)
  have "\<not> search_literal_intact (u ''http://limitgraph.org/'') None (FloatRepr (u ''0.5'')) 50 (u ''O\"Brien'')"
    unfolding search_literal_intact_eq s by (simp add: u_def)
  moreover have "map_option fst (sparql_string_body
        (drop (length (ms_before (LGONT (u ''http://limitgraph.org/'')) (LGLANG (u ''http://limitgraph.org/'')) RDFS_ns))
           (multilingual_search_query (u ''http://limitgraph.org/'') (u ''O\"Brien'') None (FloatRepr (u ''0.5'')) 50)))
       = Some (u ''O'')"
    unfolding multilingual_search_query_split by (simp add: s)
  ultimately show ?thesis by (rule conjI)
qed

section \<open>Feedback and the audit trail\<close>

lemma audit_entries_graph_add:
  "audit_entries base_uri (graph_add g (s, p, ob)) =
     (if p = ns_term RDF_ns (u ''type'') \<and> ob = ns_term (LGONT base_uri) (u ''AuditEntry'')
      then finsert s (audit_entries base_uri g) else audit_entries base_uri g)"
  by (auto simp: audit_entries_def graph_add_def)

lemma audit_entries_empty: "audit_entries base_uri {||} = {||}"
  by (auto simp: audit_entries_def)

lemma audit_entries_details:
  "audit_entries base_uri
     (foldl (\<lambda>g (key, v). graph_add g (a, f key, Literal v None None)) g details)
   = audit_entries base_uri g"
  by (induction details arbitrary: g) (auto simp: audit_entries_graph_add ns_term_def)

lemma audit_entries_add_audit_entry:
  "audit_entries base_uri (audit_graph (add_audit_entry U env base_uri action details m)) =
     finsert (ns_term (LGPROV base_uri) (u ''audit_'' @ uuid4 env (effects m)))
       (audit_entries base_uri (audit_graph m))"
  by (simp add: add_audit_entry_def Let_def audit_entries_details audit_entries_graph_add ns_term_def)

lemma audit_graph_add_rlhf:
  "audit_graph (fst (add_rlhf_feedback_trace U env base_uri m tr)) =
     audit_graph (add_audit_entry U env base_uri (u ''rlhf_feedback_added'')
        [(u ''feedback_id'', feedback_id tr), (u ''annotator_id'', annotator_id tr),
         (u ''feedback_type'', feedback_type tr)] m)"
  by (simp add: add_rlhf_feedback_trace_def Let_def add_audit_entry_def)

text \<open>
  Claim C6. A call of \<^verbatim>\<open>add_rlhf_feedback_trace\<close> returns the feedback id and
  makes the number of audit entries of the audit graph one greater, whatever the feedback
  holds. The node of the new entry is named by the value drawn from the random source;
  the statement takes that value as new to the audit graph.
\<close>

theorem add_rlhf_feedback_trace_audit_count:
  assumes "ns_term (LGPROV base_uri) (u ''audit_'' @ uuid4 env (effects m))
             |\<notin>| audit_entries base_uri (audit_graph m)"
  shows "snd (add_rlhf_feedback_trace U env base_uri m tr) = Inr (feedback_id tr)
         \<and> fcard (audit_entries base_uri (audit_graph (fst (add_rlhf_feedback_trace U env base_uri m tr))))
             = fcard (audit_entries base_uri (audit_graph m)) + 1"
proof -
  have "audit_entries base_uri (audit_graph (fst (add_rlhf_feedback_trace U env base_uri m tr)))
        = finsert (ns_term (LGPROV base_uri) (u ''audit_'' @ uuid4 env (effects m)))
            (audit_entries base_uri (audit_graph m))"
    by (simp only: audit_graph_add_rlhf audit_entries_add_audit_entry)
  then have "fcard (audit_entries base_uri (audit_graph (fst (add_rlhf_feedback_trace U env base_uri m tr))))
             = fcard (audit_entries base_uri (audit_graph m)) + 1"
    using assms by (simp add: fcard_finsert_disjoint)
  moreover have "snd (add_rlhf_feedback_trace U env base_uri m tr) = Inr (feedback_id tr)"
    by (simp add: add_rlhf_feedback_trace_def Let_def)
  ultimately show ?thesis by simp
qed

lemma empty_manager_fresh:
  "ns_term (LGPROV default_base) (u ''audit_'' @ uuid4 sample_env (effects empty_manager))
     |\<notin>| audit_entries default_base (audit_graph empty_manager)"
  by (simp add: empty_manager_def audit_entries_empty)

text \<open>The first feedback added to an empty store.\<close>

theorem add_rlhf_feedback_trace_audit_count_witness:
  "snd (add_rlhf_feedback_trace ascii_runtime sample_env default_base empty_manager positive_trace)
     = Inr (u ''fb_001'')
   \<and> fcard (audit_entries default_base (audit_graph empty_manager)) = 0
   \<and> fcard (audit_entries default_base
        (audit_graph (fst (add_rlhf_feedback_trace ascii_runtime sample_env default_base empty_manager
           positive_trace)))) = 1"
proof -
  have z: "fcard (audit_entries default_base (audit_graph empty_manager)) = 0"
    by (simp add: empty_manager_def audit_entries_empty)
  have i: "feedback_id positive_trace = u ''fb_001''"
    by (simp add: positive_trace_def bogus_trace_def)
  show ?thesis
    using add_rlhf_feedback_trace_audit_count [OF empty_manager_fresh, of ascii_runtime positive_trace] z i
    by simp
qed

text \<open>
  Claim C2, as the code has it. \<^verbatim>\<open>add_rlhf_feedback_trace\<close> checks nothing and
  never fails: for every store and every feedback trace, whatever its kind, it returns
  the feedback id. The feedback graph afterwards is the graph before together with the
  feedback triples: the type, the feedback id, the statement id, the kind as given, the
  three scores, the creation time and the annotator, and the feedback text and the session
  id when they are given and not empty. The audit graph afterwards is the graph before
  together with the six triples of one new audit entry: its type, the action
  \<^verbatim>\<open>rlhf_feedback_added\<close>, its creation time, and the feedback id, the annotator and
  the kind as given. The four other graphs are unchanged.
\<close>

theorem add_rlhf_feedback_trace_no_validation:
  "snd (add_rlhf_feedback_trace U env base_uri m tr) = Inr (feedback_id tr)
   \<and> rlhf_graph (fst (add_rlhf_feedback_trace U env base_uri m tr)) =
       rlhf_graph m |\<union>| fset_of_list
            ([(ns_term (LGRLHF base_uri) (u ''feedback_'' @ feedback_id tr),
               ns_term RDF_ns (u ''type''), ns_term (LGONT base_uri) (u ''RLHFFeedback'')),
              (ns_term (LGRLHF base_uri) (u ''feedback_'' @ feedback_id tr),
               ns_term (LGONT base_uri) (u ''feedbackId''), Literal (feedback_id tr) None None),
              (ns_term (LGRLHF base_uri) (u ''feedback_'' @ feedback_id tr),
               ns_term (LGONT base_uri) (u ''statementId''), Literal (statement_id tr) None None),
              (ns_term (LGRLHF base_uri) (u ''feedback_'' @ feedback_id tr),
               ns_term (LGONT base_uri) (u ''feedbackType''), Literal (feedback_type tr) None None),
              (ns_term (LGRLHF base_uri) (u ''feedback_'' @ feedback_id tr),
               ns_term (LGONT base_uri) (u ''qualityScore''),
               Literal (float_str (quality_score tr)) None (Some (XSD_ns @ u ''float''))),
              (ns_term (LGRLHF base_uri) (u ''feedback_'' @ feedback_id tr),
               ns_term (LGONT base_uri) (u ''relevanceScore''),
               Literal (float_str (relevance_score tr)) None (Some (XSD_ns @ u ''float''))),
              (ns_term (LGRLHF base_uri) (u ''feedback_'' @ feedback_id tr),
               ns_term (LGONT base_uri) (u ''culturalAppropriateness''),
               Literal (float_str (cultural_appropriateness tr)) None (Some (XSD_ns @ u ''float''))),
              (ns_term (LGRLHF base_uri) (u ''feedback_'' @ feedback_id tr),
               ns_term DCTERMS_ns (u ''created''),
               Literal (timestamp tr) None (Some (XSD_ns @ u ''dateTime''))),
              (ns_term (LGRLHF base_uri) (u ''feedback_'' @ feedback_id tr),
               ns_term (LGONT base_uri) (u ''providedBy''), ns_term (LGANG base_uri) (annotator_id tr))]
             @ (if truthy (feedback_text tr)
                then [(ns_term (LGRLHF base_uri) (u ''feedback_'' @ feedback_id tr),
                       ns_term (LGONT base_uri) (u ''feedbackText''),
                       Literal (the (feedback_text tr)) None None)]
                else [])
             @ (if truthy (session_id tr)
                then [(ns_term (LGRLHF base_uri) (u ''feedback_'' @ feedback_id tr),
                       ns_term (LGONT base_uri) (u ''sessionId''),
                       Literal (the (session_id tr)) None None)]
                else []))
   \<and> audit_graph (fst (add_rlhf_feedback_trace U env base_uri m tr)) =
       audit_graph m |\<union>| fset_of_list
            [(ns_term (LGPROV base_uri) (u ''audit_'' @ uuid4 env (effects m)),
              ns_term RDF_ns (u ''type''), ns_term (LGONT base_uri) (u ''AuditEntry'')),
             (ns_term (LGPROV base_uri) (u ''audit_'' @ uuid4 env (effects m)),
              ns_term (LGONT base_uri) (u ''action''), Literal (u ''rlhf_feedback_added'') None None),
             (ns_term (LGPROV base_uri) (u ''audit_'' @ uuid4 env (effects m)),
              ns_term DCTERMS_ns (u ''created''),
              Literal (now_iso env (effects m + 1)) None (Some (XSD_ns @ u ''dateTime''))),
             (ns_term (LGPROV base_uri) (u ''audit_'' @ uuid4 env (effects m)),
              ns_term (LGPROV base_uri) (clean_uri_component U (u ''feedback_id'')),
              Literal (feedback_id tr) None None),
             (ns_term (LGPROV base_uri) (u ''audit_'' @ uuid4 env (effects m)),
              ns_term (LGPROV base_uri) (clean_uri_component U (u ''annotator_id'')),
              Literal (annotator_id tr) None None),
             (ns_term (LGPROV base_uri) (u ''audit_'' @ uuid4 env (effects m)),
              ns_term (LGPROV base_uri) (clean_uri_component U (u ''feedback_type'')),
              Literal (feedback_type tr) None None)]
   \<and> main_graph (fst (add_rlhf_feedback_trace U env base_uri m tr)) = main_graph m
   \<and> provenance_graph (fst (add_rlhf_feedback_trace U env base_uri m tr)) = provenance_graph m
   \<and> annotators_graph (fst (add_rlhf_feedback_trace U env base_uri m tr)) = annotators_graph m
   \<and> languages_graph (fst (add_rlhf_feedback_trace U env base_uri m tr)) = languages_graph m
   \<and> effects (fst (add_rlhf_feedback_trace U env base_uri m tr)) = effects m + 2"
proof (intro conjI)
  show "snd (add_rlhf_feedback_trace U env base_uri m tr) = Inr (feedback_id tr)"
    by (simp add: add_rlhf_feedback_trace_def Let_def)
  show "rlhf_graph (fst (add_rlhf_feedback_trace U env base_uri m tr)) =
       rlhf_graph m |\<union>| fset_of_list
            ([(ns_term (LGRLHF base_uri) (u ''feedback_'' @ feedback_id tr),
               ns_term RDF_ns (u ''type''), ns_term (LGONT base_uri) (u ''RLHFFeedback'')),
              (ns_term (LGRLHF base_uri) (u ''feedback_'' @ feedback_id tr),
               ns_term (LGONT base_uri) (u ''feedbackId''), Literal (feedback_id tr) None None),
              (ns_term (LGRLHF base_uri) (u ''feedback_'' @ feedback_id tr),
               ns_term (LGONT base_uri) (u ''statementId''), Literal (statement_id tr) None None),
              (ns_term (LGRLHF base_uri) (u ''feedback_'' @ feedback_id tr),
               ns_term (LGONT base_uri) (u ''feedbackType''), Literal (feedback_type tr) None None),
              (ns_term (LGRLHF base_uri) (u ''feedback_'' @ feedback_id tr),
               ns_term (LGONT base_uri) (u ''qualityScore''),
               Literal (float_str (quality_score tr)) None (Some (XSD_ns @ u ''float''))),
              (ns_term (LGRLHF base_uri) (u ''feedback_'' @ feedback_id tr),
               ns_term (LGONT base_uri) (u ''relevanceScore''),
               Literal (float_str (relevance_score tr)) None (Some (XSD_ns @ u ''float''))),
              (ns_term (LGRLHF base_uri) (u ''feedback_'' @ feedback_id tr),
               ns_term (LGONT base_uri) (u ''culturalAppropriateness''),
               Literal (float_str (cultural_appropriateness tr)) None (Some (XSD_ns @ u ''float''))),
              (ns_term (LGRLHF base_uri) (u ''feedback_'' @ feedback_id tr),
               ns_term DCTERMS_ns (u ''created''),
               Literal (timestamp tr) None (Some (XSD_ns @ u ''dateTime''))),
              (ns_term (LGRLHF base_uri) (u ''feedback_'' @ feedback_id tr),
               ns_term (LGONT base_uri) (u ''providedBy''), ns_term (LGANG base_uri) (annotator_id tr))]
             @ (if truthy (feedback_text tr)
                then [(ns_term (LGRLHF base_uri) (u ''feedback_'' @ feedback_id tr),
                       ns_term (LGONT base_uri) (u ''feedbackText''),
                       Literal (the (feedback_text tr)) None None)]
                else [])
             @ (if truthy (session_id tr)
                then [(ns_term (LGRLHF base_uri) (u ''feedback_'' @ feedback_id tr),
                       ns_term (LGONT base_uri) (u ''sessionId''),
                       Literal (the (session_id tr)) None None)]
                else []))"
    unfolding add_rlhf_feedback_trace_def add_audit_entry_def Let_def
    by (auto simp: graph_add_def)
  show "audit_graph (fst (add_rlhf_feedback_trace U env base_uri m tr)) =
       audit_graph m |\<union>| fset_of_list
            [(ns_term (LGPROV base_uri) (u ''audit_'' @ uuid4 env (effects m)),
              ns_term RDF_ns (u ''type''), ns_term (LGONT base_uri) (u ''AuditEntry'')),
             (ns_term (LGPROV base_uri) (u ''audit_'' @ uuid4 env (effects m)),
              ns_term (LGONT base_uri) (u ''action''), Literal (u ''rlhf_feedback_added'') None None),
             (ns_term (LGPROV base_uri) (u ''audit_'' @ uuid4 env (effects m)),
              ns_term DCTERMS_ns (u ''created''),
              Literal (now_iso env (effects m + 1)) None (Some (XSD_ns @ u ''dateTime''))),
             (ns_term (LGPROV base_uri) (u ''audit_'' @ uuid4 env (effects m)),
              ns_term (LGPROV base_uri) (clean_uri_component U (u ''feedback_id'')),
              Literal (feedback_id tr) None None),
             (ns_term (LGPROV base_uri) (u ''audit_'' @ uuid4 env (effects m)),
              ns_term (LGPROV base_uri) (clean_uri_component U (u ''annotator_id'')),
              Literal (annotator_id tr) None None),
             (ns_term (LGPROV base_uri) (u ''audit_'' @ uuid4 env (effects m)),
              ns_term (LGPROV base_uri) (clean_uri_component U (u ''feedback_type'')),
              Literal (feedback_type tr) None None)]"
    unfolding add_rlhf_feedback_trace_def add_audit_entry_def Let_def
    by (auto simp: graph_add_def)
  show "main_graph (fst (add_rlhf_feedback_trace U env base_uri m tr)) = main_graph m"
    "provenance_graph (fst (add_rlhf_feedback_trace U env base_uri m tr)) = provenance_graph m"
    "annotators_graph (fst (add_rlhf_feedback_trace U env base_uri m tr)) = annotators_graph m"
    "languages_graph (fst (add_rlhf_feedback_trace U env base_uri m tr)) = languages_graph m"
    "effects (fst (add_rlhf_feedback_trace U env base_uri m tr)) = effects m + 2"
    by (simp_all add: add_rlhf_feedback_trace_def add_audit_entry_def Let_def)
qed

text \<open>
  Claim C2 as written fails. The kind \<^verbatim>\<open>bogus\<close> is none of the three; the call on
  an empty store returns the feedback id, and the feedback graph and the audit graph are
  no longer empty.
\<close>

theorem add_rlhf_feedback_trace_bogus_counterexample:
  "feedback_type bogus_trace \<notin> {u ''positive'', u ''negative'', u ''correction''}
   \<and> snd (add_rlhf_feedback_trace ascii_runtime sample_env default_base empty_manager bogus_trace)
       = Inr (u ''fb_001'')
   \<and> rlhf_graph (fst (add_rlhf_feedback_trace ascii_runtime sample_env default_base empty_manager bogus_trace))
       \<noteq> rlhf_graph empty_manager
   \<and> audit_graph (fst (add_rlhf_feedback_trace ascii_runtime sample_env default_base empty_manager bogus_trace))
       \<noteq> audit_graph empty_manager"
proof -
  have t: "feedback_type bogus_trace \<notin> {u ''positive'', u ''negative'', u ''correction''}"
    by (simp add: bogus_trace_def u_def)
  have r: "snd (add_rlhf_feedback_trace ascii_runtime sample_env default_base empty_manager bogus_trace)
       = Inr (u ''fb_001'')"
    by (simp add: add_rlhf_feedback_trace_def Let_def bogus_trace_def)
  have e: "rlhf_graph empty_manager = {||}" "audit_graph empty_manager = {||}"
    by (simp_all add: empty_manager_def)
  have g: "rlhf_graph (fst (add_rlhf_feedback_trace ascii_runtime sample_env default_base empty_manager bogus_trace))
       \<noteq> {||}"
    by (simp add: add_rlhf_feedback_trace_def Let_def add_audit_entry_def graph_add_def bogus_trace_def)
  have a: "audit_graph (fst (add_rlhf_feedback_trace ascii_runtime sample_env default_base empty_manager bogus_trace))
       \<noteq> {||}"
    unfolding audit_graph_add_rlhf
    by (simp add: add_audit_entry_def Let_def graph_add_def)
  show ?thesis using t r g a unfolding e by (intro conjI)
qed

section \<open>Corpus conversion\<close>

lemma graph_add_iff: "t |\<in>| graph_add g x \<longleftrightarrow> t = x \<or> t |\<in>| g"
  by (simp add: graph_add_def)

lemma foldl_graph_add_prod_iff:
  "t |\<in>| foldl (\<lambda>g (k, v). graph_add g (F k v)) g xs \<longleftrightarrow> t |\<in>| g \<or> (\<exists>(k, v) \<in> set xs. t = F k v)"
  by (induction xs arbitrary: g) (auto simp: graph_add_iff)

lemma add_provenance_triples_iff:
  "t |\<in>| add_provenance_triples U base_uri g0 st triple s p ob \<longleftrightarrow>
     t |\<in>| g0
     \<or> t = (st, ns_term RDF_ns (u ''type''), ns_term (LGONT base_uri) (u ''Statement''))
     \<or> t = (st, ns_term (LGONT base_uri) (u ''hasSubject''), s)
     \<or> t = (st, ns_term (LGONT base_uri) (u ''hasPredicate''), p)
     \<or> t = (st, ns_term (LGONT base_uri) (u ''hasObject''), ob)
     \<or> t = (st, ns_term (LGONT base_uri) (u ''confidence''),
             Literal (float_str (t_confidence triple)) None (Some (XSD_ns @ u ''float'')))
     \<or> t = (st, ns_term (LGONT base_uri) (u ''sourceLanguage''),
             Literal (t_source_language triple) None (Some (XSD_ns @ u ''string'')))
     \<or> t = (st, ns_term (LGONT base_uri) (u ''annotatorId''),
             Literal (t_annotator_id triple) None (Some (XSD_ns @ u ''string'')))
     \<or> t = (st, ns_term (LGONT base_uri) (u ''timestamp''),
             Literal (t_timestamp triple) None (Some (XSD_ns @ u ''dateTime'')))
     \<or> (case t_provenance triple of
           None \<Rightarrow> False
         | Some items \<Rightarrow>
             \<exists>(key, v) \<in> set items.
               t = (st, ns_term (LGPROV base_uri) (clean_uri_component U key),
                    Literal v None (Some (XSD_ns @ u ''string''))))"
proof (cases "t_provenance triple")
  case None
  then show ?thesis
    unfolding add_provenance_triples_def Let_def
    by (simp add: graph_add_iff) blast
next
  case (Some items)
  then show ?thesis
    unfolding add_provenance_triples_def Let_def
    by (simp add: foldl_graph_add_prod_iff graph_add_iff) blast
qed

lemma add_rlhf_triples_mono:
  "t |\<in>| graph gen \<Longrightarrow> t |\<in>| graph (add_rlhf_triples U env base_uri gen st rlhf)"
  by (simp add: add_rlhf_triples_def Let_def foldl_graph_add_prod_iff graph_add_iff)

lemma add_triple_to_graph_None:
  "t_rlhf_feedback triple = None \<Longrightarrow>
   add_triple_to_graph U env base_uri gen triple =
     (\<lparr> graph = add_provenance_triples U base_uri
           (graph_add (graph gen)
              (ns_term (LGDATA base_uri) (clean_uri_component U (t_subject triple)),
               ns_term (LGONT base_uri) (clean_uri_component U (t_predicate triple)),
               object_term U base_uri triple))
           (ns_term (LGPROV base_uri) (u ''statement_'' @ uuid4 env (gen_effects gen))) triple
           (ns_term (LGDATA base_uri) (clean_uri_component U (t_subject triple)))
           (ns_term (LGONT base_uri) (clean_uri_component U (t_predicate triple)))
           (object_term U base_uri triple),
        gen_effects = gen_effects gen + 1 \<rparr>,
      uuid4 env (gen_effects gen))"
  by (simp add: add_triple_to_graph_def Let_def)

lemma triple_written_mono:
  assumes "triple_written U base_uri g st triple" and "\<And>t. t |\<in>| g \<Longrightarrow> t |\<in>| g'"
  shows "triple_written U base_uri g' st triple"
proof (cases "t_provenance triple")
  case None
  then show ?thesis
    using assms(1) unfolding triple_written_def Let_def by (simp add: assms(2))
next
  case (Some items)
  then show ?thesis
    using assms(1) unfolding triple_written_def Let_def
    by (simp add: assms(2) list_all_iff) (blast intro: assms(2))
qed

lemma add_triple_to_graph_written:
  assumes "t_rlhf_feedback triple = None"
  shows "triple_written U base_uri (graph (fst (add_triple_to_graph U env base_uri gen triple)))
     (ns_term (LGPROV base_uri) (u ''statement_'' @ uuid4 env (gen_effects gen))) triple"
proof (cases "t_provenance triple")
  case None
  then show ?thesis
    unfolding triple_written_def Let_def
    by (simp add: add_triple_to_graph_None [OF assms] add_provenance_triples_iff graph_add_iff)
next
  case (Some items)
  then show ?thesis
    unfolding triple_written_def Let_def
    by (simp add: add_triple_to_graph_None [OF assms] add_provenance_triples_iff graph_add_iff list_all_iff)
       blast
qed

lemma add_triple_to_graph_mono:
  "t_rlhf_feedback triple = None \<Longrightarrow> t |\<in>| graph gen \<Longrightarrow>
   t |\<in>| graph (fst (add_triple_to_graph U env base_uri gen triple))"
  by (simp add: add_triple_to_graph_None add_provenance_triples_iff graph_add_iff)

lemma convert_edge_ok:
  "\<exists>code. code \<in> set classifier_codes
     \<and> convert_limitgraph_edge_to_triple U env gen s p ob c ann rl src =
         Inr (gen\<lparr>gen_effects := gen_effects gen + 2\<rparr>,
              \<lparr> t_subject = s, t_predicate = p, t_object = ob, t_confidence = c,
                t_source_language = code, t_annotator_id = ann,
                t_timestamp = now_iso env (gen_effects gen + 1), t_rlhf_feedback = rl,
                t_provenance = Some [(u ''extraction_method'', u ''limitgraph_conversion''),
                                     (u ''source_system'', u ''LIMIT-Graph''),
                                     (u ''conversion_timestamp'', now_iso env (gen_effects gen)),
                                     (u ''source_text'', src)] \<rparr>)"
proof -
  obtain code where "detect_language U (s @ [32] @ p @ [32] @ ob @ [32] @ src) = Inr code"
    "code \<in> set classifier_codes"
    using detect_language_code by blast
  then show ?thesis
    by (simp add: convert_limitgraph_edge_to_triple_def Let_def)
qed

lemma write_extracted_ok:
  "\<exists>gen1 triple.
     convert_limitgraph_edge_to_triple U env (cs_gen cs) (td_subject td) (td_predicate td)
        (td_object td) (td_confidence td) annotator None text = Inr (gen1, triple)
     \<and> graph gen1 = graph (cs_gen cs)
     \<and> t_rlhf_feedback triple = None
     \<and> t_predicate triple = td_predicate td
     \<and> t_source_language triple \<in> set classifier_codes
     \<and> write_extracted U env base_uri annotator text cs td =
         Inr (cs\<lparr>cs_gen := fst (add_triple_to_graph U env base_uri gen1 triple),
                 cs_triples_added := cs_triples_added cs + 1\<rparr>)"
proof -
  obtain code where c: "code \<in> set classifier_codes"
    and e: "convert_limitgraph_edge_to_triple U env (cs_gen cs) (td_subject td) (td_predicate td)
        (td_object td) (td_confidence td) annotator None text =
         Inr ((cs_gen cs)\<lparr>gen_effects := gen_effects (cs_gen cs) + 2\<rparr>,
              \<lparr> t_subject = td_subject td, t_predicate = td_predicate td, t_object = td_object td,
                t_confidence = td_confidence td,
                t_source_language = code, t_annotator_id = annotator,
                t_timestamp = now_iso env (gen_effects (cs_gen cs) + 1), t_rlhf_feedback = None,
                t_provenance = Some [(u ''extraction_method'', u ''limitgraph_conversion''),
                                     (u ''source_system'', u ''LIMIT-Graph''),
                                     (u ''conversion_timestamp'', now_iso env (gen_effects (cs_gen cs))),
                                     (u ''source_text'', text)] \<rparr>)"
    using convert_edge_ok by blast
  show ?thesis
    unfolding write_extracted_def e
    by (intro exI conjI, rule refl) (simp_all add: c split: prod.splits)
qed

lemma write_all_ok:
  "\<exists>cs'. write_all U env base_uri annotator text cs tds = Inr cs'
     \<and> cs_languages cs' = cs_languages cs
     \<and> cs_triples_added cs' = cs_triples_added cs + length tds
     \<and> (\<forall>t. t |\<in>| graph (cs_gen cs) \<longrightarrow> t |\<in>| graph (cs_gen cs'))
     \<and> (\<forall>td \<in> set tds. \<exists>g0 g1 triple st.
           convert_limitgraph_edge_to_triple U env g0 (td_subject td) (td_predicate td)
              (td_object td) (td_confidence td) annotator None text = Inr (g1, triple)
           \<and> triple_written U base_uri (graph (cs_gen cs')) st triple)"
proof (induction tds arbitrary: cs)
  case Nil
  then show ?case by simp
next
  case (Cons td tds)
  obtain gen1 triple where
    e: "convert_limitgraph_edge_to_triple U env (cs_gen cs) (td_subject td) (td_predicate td)
        (td_object td) (td_confidence td) annotator None text = Inr (gen1, triple)"
    and g1: "graph gen1 = graph (cs_gen cs)"
    and n: "t_rlhf_feedback triple = None"
    and w: "write_extracted U env base_uri annotator text cs td =
         Inr (cs\<lparr>cs_gen := fst (add_triple_to_graph U env base_uri gen1 triple),
                 cs_triples_added := cs_triples_added cs + 1\<rparr>)"
    using write_extracted_ok by blast
  define cs1 where "cs1 = cs\<lparr>cs_gen := fst (add_triple_to_graph U env base_uri gen1 triple),
                 cs_triples_added := cs_triples_added cs + 1\<rparr>"
  have cs1: "cs_gen cs1 = fst (add_triple_to_graph U env base_uri gen1 triple)"
    "cs_languages cs1 = cs_languages cs" "cs_triples_added cs1 = cs_triples_added cs + 1"
    by (simp_all add: cs1_def)
  from Cons.IH [of cs1] obtain cs' where
    a: "write_all U env base_uri annotator text cs1 tds = Inr cs'"
    and l: "cs_languages cs' = cs_languages cs1"
    and k: "cs_triples_added cs' = cs_triples_added cs1 + length tds"
    and m: "\<forall>t. t |\<in>| graph (cs_gen cs1) \<longrightarrow> t |\<in>| graph (cs_gen cs')"
    and r: "\<forall>td \<in> set tds. \<exists>g0 g1 triple st.
           convert_limitgraph_edge_to_triple U env g0 (td_subject td) (td_predicate td)
              (td_object td) (td_confidence td) annotator None text = Inr (g1, triple)
           \<and> triple_written U base_uri (graph (cs_gen cs')) st triple"
    by blast
  have m0: "\<forall>t. t |\<in>| graph (cs_gen cs) \<longrightarrow> t |\<in>| graph (cs_gen cs')"
  proof (intro allI impI)
    fix t assume "t |\<in>| graph (cs_gen cs)"
    then have "t |\<in>| graph gen1" by (simp add: g1)
    then have "t |\<in>| graph (cs_gen cs1)"
      unfolding cs1 by (rule add_triple_to_graph_mono [OF n])
    then show "t |\<in>| graph (cs_gen cs')" using m by blast
  qed
  have w0: "triple_written U base_uri (graph (cs_gen cs1))
          (ns_term (LGPROV base_uri) (u ''statement_'' @ uuid4 env (gen_effects gen1))) triple"
    unfolding cs1 by (rule add_triple_to_graph_written [OF n])
  have w1: "triple_written U base_uri (graph (cs_gen cs'))
          (ns_term (LGPROV base_uri) (u ''statement_'' @ uuid4 env (gen_effects gen1))) triple"
    by (rule triple_written_mono [OF w0]) (use m in blast)
  have first: "\<exists>g0 g1 triple st.
           convert_limitgraph_edge_to_triple U env g0 (td_subject td) (td_predicate td)
              (td_object td) (td_confidence td) annotator None text = Inr (g1, triple)
           \<and> triple_written U base_uri (graph (cs_gen cs')) st triple"
    using e w1 by (intro exI conjI)
  show ?case
  proof (intro exI [of _ cs'] conjI)
    show "write_all U env base_uri annotator text cs (td # tds) = Inr cs'"
      using w a by (simp add: cs1_def)
    show "cs_languages cs' = cs_languages cs" using l cs1 by simp
    show "cs_triples_added cs' = cs_triples_added cs + length (td # tds)" using k cs1 by simp
    show "\<forall>t. t |\<in>| graph (cs_gen cs) \<longrightarrow> t |\<in>| graph (cs_gen cs')" by (rule m0)
    show "\<forall>td \<in> set (td # tds). \<exists>g0 g1 triple st.
           convert_limitgraph_edge_to_triple U env g0 (td_subject td) (td_predicate td)
              (td_object td) (td_confidence td) annotator None text = Inr (g1, triple)
           \<and> triple_written U base_uri (graph (cs_gen cs')) st triple"
    proof
      fix x assume "x \<in> set (td # tds)"
      then consider "x = td" | "x \<in> set tds" by auto
      then show "\<exists>g0 g1 triple st.
           convert_limitgraph_edge_to_triple U env g0 (td_subject x) (td_predicate x)
              (td_object x) (td_confidence x) annotator None text = Inr (g1, triple)
           \<and> triple_written U base_uri (graph (cs_gen cs')) st triple"
      proof cases
        case 1
        then show ?thesis using first by simp
      next
        case 2
        then show ?thesis using r by (rule bspec [rotated])
      qed
    qed
  qed
qed

lemma contains_text_extracted:
  "\<lparr> td_subject = u ''document_'' @ doc_id, td_predicate = u ''contains_text'', td_object = text,
      td_confidence = FloatRepr (u ''1.0''), td_source_doc = doc_id \<rparr>
   \<in> set (extract_simple_triples U text doc_id language)"
  by (simp add: extract_simple_triples_def Let_def)

lemma convert_document_nonempty:
  assumes "doc_text_of doc \<noteq> []" and "detect_language U (doc_text_of doc) = Inr language"
  shows "convert_document U env base_uri annotator cs doc =
     write_all U env base_uri annotator (doc_text_of doc)
       (cs\<lparr>cs_gen := (cs_gen cs)\<lparr>gen_effects := gen_effects (cs_gen cs) + 1,
           graph := graph_add (graph_add (graph_add (graph_add (graph_add (graph (cs_gen cs))
             (ns_term (LGDATA base_uri) (u ''document_'' @ clean_uri_component U (doc_id_of env (gen_effects (cs_gen cs)) doc)),
              ns_term RDF_ns (u ''type''), ns_term (LGONT base_uri) (u ''Document'')))
             (ns_term (LGDATA base_uri) (u ''document_'' @ clean_uri_component U (doc_id_of env (gen_effects (cs_gen cs)) doc)),
              ns_term RDFS_ns (u ''label''),
              Literal (u ''Document '' @ doc_id_of env (gen_effects (cs_gen cs)) doc) (Some language) None))
             (ns_term (LGDATA base_uri) (u ''document_'' @ clean_uri_component U (doc_id_of env (gen_effects (cs_gen cs)) doc)),
              ns_term (LGONT base_uri) (u ''content''), Literal (doc_text_of doc) (Some language) None))
             (ns_term (LGDATA base_uri) (u ''document_'' @ clean_uri_component U (doc_id_of env (gen_effects (cs_gen cs)) doc)),
              ns_term (LGONT base_uri) (u ''documentId''),
              Literal (doc_id_of env (gen_effects (cs_gen cs)) doc) None (Some (XSD_ns @ u ''string''))))
             (ns_term (LGDATA base_uri) (u ''document_'' @ clean_uri_component U (doc_id_of env (gen_effects (cs_gen cs)) doc)),
              ns_term (LGONT base_uri) (u ''language''),
              Literal language None (Some (XSD_ns @ u ''string'')))\<rparr>,
          cs_languages := finsert language (cs_languages cs)\<rparr>)
       (extract_simple_triples U (doc_text_of doc) (doc_id_of env (gen_effects (cs_gen cs)) doc) language)"
  unfolding convert_document_def Let_def
  by (simp only: assms if_False sum.case) simp

lemma convert_document_empty:
  "doc_text_of doc = [] \<Longrightarrow>
   convert_document U env base_uri annotator cs doc =
     Inr (cs\<lparr>cs_gen := (cs_gen cs)\<lparr>gen_effects := gen_effects (cs_gen cs) + 1\<rparr>\<rparr>)"
  by (simp add: convert_document_def Let_def)

lemma convert_document_ok:
  "\<exists>cs'. convert_document U env base_uri annotator cs doc = Inr cs'
     \<and> (\<forall>t. t |\<in>| graph (cs_gen cs) \<longrightarrow> t |\<in>| graph (cs_gen cs'))
     \<and> fset (cs_languages cs') \<subseteq> fset (cs_languages cs) \<union> set classifier_codes
     \<and> (doc_text_of doc = [] \<longrightarrow>
           graph (cs_gen cs') = graph (cs_gen cs) \<and> cs_triples_added cs' = cs_triples_added cs
           \<and> cs_languages cs' = cs_languages cs)
     \<and> (doc_text_of doc \<noteq> [] \<longrightarrow>
           (\<exists>n g0 g1 triple st.
              convert_limitgraph_edge_to_triple U env g0 (u ''document_'' @ doc_id_of env n doc)
                (u ''contains_text'') (doc_text_of doc) (FloatRepr (u ''1.0'')) annotator None
                (doc_text_of doc) = Inr (g1, triple)
              \<and> triple_written U base_uri (graph (cs_gen cs')) st triple))"
proof (cases "doc_text_of doc = []")
  case True
  show ?thesis
    unfolding convert_document_empty [OF True] using True by simp
next
  case False
  obtain language where d: "detect_language U (doc_text_of doc) = Inr language"
    and lc: "language \<in> set classifier_codes"
    using detect_language_code by blast
  define doc_id where "doc_id = doc_id_of env (gen_effects (cs_gen cs)) doc"
  define doc_uri where "doc_uri = ns_term (LGDATA base_uri) (u ''document_'' @ clean_uri_component U doc_id)"
  define cs0 where "cs0 =
     cs\<lparr>cs_gen := (cs_gen cs)\<lparr>gen_effects := gen_effects (cs_gen cs) + 1,
           graph := graph_add (graph_add (graph_add (graph_add (graph_add (graph (cs_gen cs))
             (doc_uri, ns_term RDF_ns (u ''type''), ns_term (LGONT base_uri) (u ''Document'')))
             (doc_uri, ns_term RDFS_ns (u ''label''), Literal (u ''Document '' @ doc_id) (Some language) None))
             (doc_uri, ns_term (LGONT base_uri) (u ''content''), Literal (doc_text_of doc) (Some language) None))
             (doc_uri, ns_term (LGONT base_uri) (u ''documentId''),
              Literal doc_id None (Some (XSD_ns @ u ''string''))))
             (doc_uri, ns_term (LGONT base_uri) (u ''language''),
              Literal language None (Some (XSD_ns @ u ''string'')))\<rparr>,
          cs_languages := finsert language (cs_languages cs)\<rparr>"
  have cd: "convert_document U env base_uri annotator cs doc =
        write_all U env base_uri annotator (doc_text_of doc) cs0
          (extract_simple_triples U (doc_text_of doc) doc_id language)"
    unfolding cs0_def doc_uri_def doc_id_def by (rule convert_document_nonempty [OF False d])
  have g0: "t |\<in>| graph (cs_gen cs) \<Longrightarrow> t |\<in>| graph (cs_gen cs0)" for t
    by (simp add: cs0_def graph_add_iff)
  have l0: "cs_languages cs0 = finsert language (cs_languages cs)"
    by (simp add: cs0_def)
  from write_all_ok [of U env base_uri annotator "doc_text_of doc" cs0
        "extract_simple_triples U (doc_text_of doc) doc_id language"]
  obtain cs' where
    a: "write_all U env base_uri annotator (doc_text_of doc) cs0
          (extract_simple_triples U (doc_text_of doc) doc_id language) = Inr cs'"
    and l: "cs_languages cs' = cs_languages cs0"
    and m: "\<forall>t. t |\<in>| graph (cs_gen cs0) \<longrightarrow> t |\<in>| graph (cs_gen cs')"
    and r: "\<forall>td \<in> set (extract_simple_triples U (doc_text_of doc) doc_id language). \<exists>g0 g1 triple st.
           convert_limitgraph_edge_to_triple U env g0 (td_subject td) (td_predicate td)
              (td_object td) (td_confidence td) annotator None (doc_text_of doc) = Inr (g1, triple)
           \<and> triple_written U base_uri (graph (cs_gen cs')) st triple"
    by (elim exE conjE)
  have m0: "\<forall>t. t |\<in>| graph (cs_gen cs) \<longrightarrow> t |\<in>| graph (cs_gen cs')"
    using m g0 by blast
  note w0 = bspec [OF r contains_text_extracted]
  have w1: "\<exists>g0 g1 triple st.
           convert_limitgraph_edge_to_triple U env g0 (u ''document_'' @ doc_id) (u ''contains_text'')
              (doc_text_of doc) (FloatRepr (u ''1.0'')) annotator None (doc_text_of doc) = Inr (g1, triple)
           \<and> triple_written U base_uri (graph (cs_gen cs')) st triple"
    using w0 by (simp only: triple_data.simps)
  then have w: "\<exists>n g0 g1 triple st.
              convert_limitgraph_edge_to_triple U env g0 (u ''document_'' @ doc_id_of env n doc)
                (u ''contains_text'') (doc_text_of doc) (FloatRepr (u ''1.0'')) annotator None
                (doc_text_of doc) = Inr (g1, triple)
              \<and> triple_written U base_uri (graph (cs_gen cs')) st triple"
    unfolding doc_id_def by blast
  have ls: "fset (cs_languages cs') \<subseteq> fset (cs_languages cs) \<union> set classifier_codes"
    unfolding l l0 using lc by auto
  show ?thesis
  proof (intro exI [of _ cs'] conjI)
    show "convert_document U env base_uri annotator cs doc = Inr cs'" unfolding cd by (rule a)
    show "\<forall>t. t |\<in>| graph (cs_gen cs) \<longrightarrow> t |\<in>| graph (cs_gen cs')" by (rule m0)
    show "fset (cs_languages cs') \<subseteq> fset (cs_languages cs) \<union> set classifier_codes" by (rule ls)
    show "doc_text_of doc = [] \<longrightarrow>
           graph (cs_gen cs') = graph (cs_gen cs) \<and> cs_triples_added cs' = cs_triples_added cs
           \<and> cs_languages cs' = cs_languages cs" using False by blast
    show "doc_text_of doc \<noteq> [] \<longrightarrow>
           (\<exists>n g0 g1 triple st.
              convert_limitgraph_edge_to_triple U env g0 (u ''document_'' @ doc_id_of env n doc)
                (u ''contains_text'') (doc_text_of doc) (FloatRepr (u ''1.0'')) annotator None
                (doc_text_of doc) = Inr (g1, triple)
              \<and> triple_written U base_uri (graph (cs_gen cs')) st triple)"
      using w by (rule impI)
  qed
qed

lemma convert_documents_ok:
  "\<exists>cs'. convert_documents U env base_uri annotator cs docs = Inr cs'
     \<and> (\<forall>t. t |\<in>| graph (cs_gen cs) \<longrightarrow> t |\<in>| graph (cs_gen cs'))
     \<and> fset (cs_languages cs') \<subseteq> fset (cs_languages cs) \<union> set classifier_codes
     \<and> (\<forall>d \<in> set docs. doc_text_of d \<noteq> [] \<longrightarrow>
           (\<exists>n g0 g1 triple st.
              convert_limitgraph_edge_to_triple U env g0 (u ''document_'' @ doc_id_of env n d)
                (u ''contains_text'') (doc_text_of d) (FloatRepr (u ''1.0'')) annotator None
                (doc_text_of d) = Inr (g1, triple)
              \<and> triple_written U base_uri (graph (cs_gen cs')) st triple))"
proof (induction docs arbitrary: cs)
  case Nil
  then show ?case by simp
next
  case (Cons doc docs)
  let ?W = "\<lambda>d g. \<exists>n g0 g1 triple st.
              convert_limitgraph_edge_to_triple U env g0 (u ''document_'' @ doc_id_of env n d)
                (u ''contains_text'') (doc_text_of d) (FloatRepr (u ''1.0'')) annotator None
                (doc_text_of d) = Inr (g1, triple)
              \<and> triple_written U base_uri g st triple"
  from convert_document_ok [of U env base_uri annotator cs doc]
  obtain cs1 where
    a1: "convert_document U env base_uri annotator cs doc = Inr cs1"
    and m1: "\<forall>t. t |\<in>| graph (cs_gen cs) \<longrightarrow> t |\<in>| graph (cs_gen cs1)"
    and l1: "fset (cs_languages cs1) \<subseteq> fset (cs_languages cs) \<union> set classifier_codes"
    and w1: "doc_text_of doc \<noteq> [] \<longrightarrow> ?W doc (graph (cs_gen cs1))"
    by (elim exE conjE)
  from Cons.IH [of cs1]
  obtain cs' where
    a: "convert_documents U env base_uri annotator cs1 docs = Inr cs'"
    and m: "\<forall>t. t |\<in>| graph (cs_gen cs1) \<longrightarrow> t |\<in>| graph (cs_gen cs')"
    and l: "fset (cs_languages cs') \<subseteq> fset (cs_languages cs1) \<union> set classifier_codes"
    and w: "\<forall>d \<in> set docs. doc_text_of d \<noteq> [] \<longrightarrow> ?W d (graph (cs_gen cs'))"
    by (elim exE conjE)
  have mm: "t |\<in>| graph (cs_gen cs1) \<Longrightarrow> t |\<in>| graph (cs_gen cs')" for t
    using m by blast
  have lift: "?W d (graph (cs_gen cs'))" if "?W d (graph (cs_gen cs1))" for d
  proof -
    from that obtain n g0 g1 triple st where
      e: "convert_limitgraph_edge_to_triple U env g0 (u ''document_'' @ doc_id_of env n d)
                (u ''contains_text'') (doc_text_of d) (FloatRepr (u ''1.0'')) annotator None
                (doc_text_of d) = Inr (g1, triple)"
      and t: "triple_written U base_uri (graph (cs_gen cs1)) st triple"
      by (elim exE conjE)
    have "triple_written U base_uri (graph (cs_gen cs')) st triple"
      by (rule triple_written_mono [OF t]) (rule mm)
    with e show ?thesis by blast
  qed
  show ?case
  proof (intro exI [of _ cs'] conjI)
    show "convert_documents U env base_uri annotator cs (doc # docs) = Inr cs'"
      using a1 a by simp
    show "\<forall>t. t |\<in>| graph (cs_gen cs) \<longrightarrow> t |\<in>| graph (cs_gen cs')"
      using m1 m by blast
    show "fset (cs_languages cs') \<subseteq> fset (cs_languages cs) \<union> set classifier_codes"
      using l1 l by blast
    show "\<forall>d \<in> set (doc # docs). doc_text_of d \<noteq> [] \<longrightarrow> ?W d (graph (cs_gen cs'))"
    proof (intro ballI impI)
      fix d assume d: "d \<in> set (doc # docs)" and ne: "doc_text_of d \<noteq> []"
      from d consider "d = doc" | "d \<in> set docs" by auto
      then show "?W d (graph (cs_gen cs'))"
      proof cases
        case 1
        then have "?W d (graph (cs_gen cs1))" using w1 ne by blast
        then show ?thesis by (rule lift)
      next
        case 2
        then show ?thesis using w ne by blast
      qed
    qed
  qed
qed

lemma convert_edge_fields:
  assumes "convert_limitgraph_edge_to_triple U env g0 s p ob c ann rl src = Inr (g1, triple)"
  shows "t_subject triple = s \<and> t_predicate triple = p \<and> t_object triple = ob
         \<and> t_confidence triple = c \<and> t_annotator_id triple = ann
         \<and> t_source_language triple \<in> set classifier_codes"
proof -
  obtain code where c: "code \<in> set classifier_codes"
    and e: "convert_limitgraph_edge_to_triple U env g0 s p ob c ann rl src =
         Inr (g0\<lparr>gen_effects := gen_effects g0 + 2\<rparr>,
              \<lparr> t_subject = s, t_predicate = p, t_object = ob, t_confidence = c,
                t_source_language = code, t_annotator_id = ann,
                t_timestamp = now_iso env (gen_effects g0 + 1), t_rlhf_feedback = rl,
                t_provenance = Some [(u ''extraction_method'', u ''limitgraph_conversion''),
                                     (u ''source_system'', u ''LIMIT-Graph''),
                                     (u ''conversion_timestamp'', now_iso env (gen_effects g0)),
                                     (u ''source_text'', src)] \<rparr>)"
    using convert_edge_ok by blast
  have "triple = \<lparr> t_subject = s, t_predicate = p, t_object = ob, t_confidence = c,
                t_source_language = code, t_annotator_id = ann,
                t_timestamp = now_iso env (gen_effects g0 + 1), t_rlhf_feedback = rl,
                t_provenance = Some [(u ''extraction_method'', u ''limitgraph_conversion''),
                                     (u ''source_system'', u ''LIMIT-Graph''),
                                     (u ''conversion_timestamp'', now_iso env (gen_effects g0)),
                                     (u ''source_text'', src)] \<rparr>"
    using assms unfolding e by simp
  then show ?thesis using c by simp
qed

lemma filter_match_triples:
  "p \<noteq> q \<Longrightarrow> filter (\<lambda>td. td_predicate td = q) (match_triples U pat p text doc_id) = []"
  by (auto simp: match_triples_def filter_empty_conv)

lemma contains_text_names:
  "u ''likes'' \<noteq> u ''contains_text''" "u ''allergic_to'' \<noteq> u ''contains_text''"
  by (simp_all add: u_def)

lemma extract_simple_triples_contains_text:
  "filter (\<lambda>td. td_predicate td = u ''contains_text'') (extract_simple_triples U text doc_id language)
     = [\<lparr> td_subject = u ''document_'' @ doc_id, td_predicate = u ''contains_text'', td_object = text,
           td_confidence = FloatRepr (u ''1.0''), td_source_doc = doc_id \<rparr>]"
  by (simp add: extract_simple_triples_def Let_def filter_match_triples contains_text_names)

lemma length_extract_simple_triples:
  "length (extract_simple_triples U text doc_id language)
     = length (extract_simple_triples U text [] language)"
  by (simp add: extract_simple_triples_def match_triples_def Let_def)

lemma write_all_count:
  assumes "write_all U env base_uri annotator text cs tds = Inr cs'"
  shows "cs_triples_added cs' = cs_triples_added cs + length tds"
proof -
  from write_all_ok [of U env base_uri annotator "text" cs tds]
  obtain cs'' where a: "write_all U env base_uri annotator text cs tds = Inr cs''"
    and k: "cs_triples_added cs'' = cs_triples_added cs + length tds"
    by (elim exE conjE)
  from a assms have "cs'' = cs'" by simp
  then show ?thesis using k by simp
qed

lemma convert_document_count:
  assumes c: "convert_document U env base_uri annotator cs doc = Inr cs'"
  shows "cs_triples_added cs' = cs_triples_added cs +
           (if doc_text_of doc = [] then 0
            else length (extract_simple_triples U (doc_text_of doc) []
                           (projr (detect_language U (doc_text_of doc)))))"
proof (cases "doc_text_of doc = []")
  case True
  have "cs_triples_added cs' = cs_triples_added cs"
    using c unfolding convert_document_empty [OF True] by auto
  then show ?thesis using True by simp
next
  case False
  obtain language where d: "detect_language U (doc_text_of doc) = Inr language"
    using detect_language_code by blast
  note cd = convert_document_nonempty [OF False d, of env base_uri annotator cs]
  have "cs_triples_added cs' = cs_triples_added cs +
      length (extract_simple_triples U (doc_text_of doc) (doc_id_of env (gen_effects (cs_gen cs)) doc) language)"
    using write_all_count [OF c [unfolded cd]] by simp
  then show ?thesis
    using False d length_extract_simple_triples [of U "doc_text_of doc" _ language] by simp
qed

lemma convert_documents_count:
  assumes "convert_documents U env base_uri annotator cs docs = Inr cs'"
  shows "cs_triples_added cs' = cs_triples_added cs +
           (\<Sum>d\<leftarrow>docs. if doc_text_of d = [] then 0
                       else length (extract_simple_triples U (doc_text_of d) []
                                      (projr (detect_language U (doc_text_of d)))))"
  using assms
proof (induction docs arbitrary: cs)
  case Nil
  then show ?case by simp
next
  case (Cons doc docs)
  obtain cs1 where a1: "convert_document U env base_uri annotator cs doc = Inr cs1"
    using convert_document_ok by blast
  have rest: "convert_documents U env base_uri annotator cs1 docs = Inr cs'"
    using Cons.prems a1 by simp
  show ?case
    using convert_document_count [OF a1] Cons.IH [OF rest] by simp
qed

lemma convert_documents_all_empty:
  assumes "\<forall>d \<in> set docs. doc_text_of d = []"
    and "convert_documents U env base_uri annotator cs docs = Inr cs'"
  shows "graph (cs_gen cs') = graph (cs_gen cs) \<and> cs_triples_added cs' = cs_triples_added cs
         \<and> cs_languages cs' = cs_languages cs"
  using assms
proof (induction docs arbitrary: cs)
  case Nil
  then show ?case by simp
next
  case (Cons doc docs)
  have e: "doc_text_of doc = []" using Cons.prems(1) by simp
  define cs1 where "cs1 = cs\<lparr>cs_gen := (cs_gen cs)\<lparr>gen_effects := gen_effects (cs_gen cs) + 1\<rparr>\<rparr>"
  have a1: "convert_document U env base_uri annotator cs doc = Inr cs1"
    unfolding cs1_def by (rule convert_document_empty [OF e])
  have rest: "convert_documents U env base_uri annotator cs1 docs = Inr cs'"
    using Cons.prems(2) a1 by simp
  have all: "\<forall>d \<in> set docs. doc_text_of d = []" using Cons.prems(1) by simp
  show ?case using Cons.IH [OF all rest] by (simp add: cs1_def)
qed

lemma convert_edge_provenance:
  assumes "convert_limitgraph_edge_to_triple U env g0 s p ob c ann rl src = Inr (g1, triple)"
  shows "\<exists>items. t_provenance triple = Some items \<and> (u ''source_text'', src) \<in> set items"
proof -
  obtain code where
    e: "convert_limitgraph_edge_to_triple U env g0 s p ob c ann rl src =
         Inr (g0\<lparr>gen_effects := gen_effects g0 + 2\<rparr>,
              \<lparr> t_subject = s, t_predicate = p, t_object = ob, t_confidence = c,
                t_source_language = code, t_annotator_id = ann,
                t_timestamp = now_iso env (gen_effects g0 + 1), t_rlhf_feedback = rl,
                t_provenance = Some [(u ''extraction_method'', u ''limitgraph_conversion''),
                                     (u ''source_system'', u ''LIMIT-Graph''),
                                     (u ''conversion_timestamp'', now_iso env (gen_effects g0)),
                                     (u ''source_text'', src)] \<rparr>)"
    using convert_edge_ok by blast
  have "triple = \<lparr> t_subject = s, t_predicate = p, t_object = ob, t_confidence = c,
                t_source_language = code, t_annotator_id = ann,
                t_timestamp = now_iso env (gen_effects g0 + 1), t_rlhf_feedback = rl,
                t_provenance = Some [(u ''extraction_method'', u ''limitgraph_conversion''),
                                     (u ''source_system'', u ''LIMIT-Graph''),
                                     (u ''conversion_timestamp'', now_iso env (gen_effects g0)),
                                     (u ''source_text'', src)] \<rparr>"
    using assms unfolding e by simp
  then show ?thesis by simp
qed

lemma triple_written_provenance:
  assumes "triple_written U base_uri g st triple" and "t_provenance triple = Some items"
    and "(key, v) \<in> set items"
  shows "(st, ns_term (LGPROV base_uri) (clean_uri_component U key),
          Literal v None (Some (XSD_ns @ u ''string''))) |\<in>| g"
proof -
  have "list_all (\<lambda>(key, v).
          (st, ns_term (LGPROV base_uri) (clean_uri_component U key),
           Literal v None (Some (XSD_ns @ u ''string''))) |\<in>| g) items"
    using assms(1) unfolding triple_written_def Let_def assms(2) by simp
  then show ?thesis using assms(3) by (auto simp: list_all_iff)
qed

lemma convert_limitgraph_corpus_result:
  "\<exists>cs' gen' res.
     convert_documents U env base_uri annotator
        \<lparr> cs_gen = gen, cs_languages = {||}, cs_triples_added = 0 \<rparr> corpus = Inr cs'
     \<and> convert_limitgraph_corpus U env base_uri gen corpus annotator = Inr (gen', res)
     \<and> graph gen' = graph (cs_gen cs')
     \<and> languages_detected res = cs_languages cs'
     \<and> triples_count res = cs_triples_added cs'"
proof -
  obtain cs' where a: "convert_documents U env base_uri annotator
        \<lparr> cs_gen = gen, cs_languages = {||}, cs_triples_added = 0 \<rparr> corpus = Inr cs'"
    using convert_documents_ok by blast
  show ?thesis
    unfolding convert_limitgraph_corpus_def a by (simp add: Let_def)
qed

lemma triple_written_fact:
  assumes "triple_written U base_uri g st triple"
  shows "(ns_term (LGDATA base_uri) (clean_uri_component U (t_subject triple)),
          ns_term (LGONT base_uri) (clean_uri_component U (t_predicate triple)),
          object_term U base_uri triple) |\<in>| g"
    and "(st, ns_term (LGONT base_uri) (u ''confidence''),
          Literal (float_str (t_confidence triple)) None (Some (XSD_ns @ u ''float''))) |\<in>| g"
  using assms by (simp_all add: triple_written_def Let_def)

text \<open>
  Claim C3, as the code has it. Whatever the patterns match, the extractor produces
  exactly one candidate with the predicate \<^verbatim>\<open>contains_text\<close>: its subject is the
  document, its object the full raw text, its confidence 1.0. A document whose text is
  empty or absent is skipped: the loop body leaves the graph, the count and the languages
  as they were. The conversion of a corpus returns, and the count it reports is the number
  of candidates of the documents whose text is not empty, each written once (the number
  of candidates of a text does not depend on the document's identifier, which the count
  below leaves empty); when every text of the corpus is empty the graph is unchanged, the
  count is 0 and no language is detected. For every document of the corpus whose text is not empty the graph then
  holds the fact and the statement written for its \<^verbatim>\<open>contains_text\<close> candidate: the
  triple that \<^verbatim>\<open>convert_limitgraph_edge_to_triple\<close> builds from it, its confidence 1.0
  and the raw text as its source text. The object of the fact in the graph is the raw
  text as a literal with a language tag when the text has 50 characters or more or
  contains one of \<^verbatim>\<open>. ! ? ,\<close>; for any other text it is the identifier minted in the
  data namespace from the cleaned text.
\<close>

theorem convert_limitgraph_corpus_contains_text:
  "filter (\<lambda>td. td_predicate td = u ''contains_text'') (extract_simple_triples U text doc_id language)
     = [\<lparr> td_subject = u ''document_'' @ doc_id, td_predicate = u ''contains_text'', td_object = text,
           td_confidence = FloatRepr (u ''1.0''), td_source_doc = doc_id \<rparr>]
   \<and> (doc_text_of doc = [] \<longrightarrow>
         convert_document U env base_uri annotator cs doc =
           Inr (cs\<lparr>cs_gen := (cs_gen cs)\<lparr>gen_effects := gen_effects (cs_gen cs) + 1\<rparr>\<rparr>))
   \<and> (\<exists>gen' res. convert_limitgraph_corpus U env base_uri gen corpus annotator = Inr (gen', res)
         \<and> res_graph res = graph gen'
         \<and> triples_count res =
              (\<Sum>d\<leftarrow>corpus. if doc_text_of d = [] then 0
                            else length (extract_simple_triples U (doc_text_of d) []
                                           (projr (detect_language U (doc_text_of d)))))
         \<and> ((\<forall>d \<in> set corpus. doc_text_of d = []) \<longrightarrow>
               graph gen' = graph gen \<and> triples_count res = 0 \<and> languages_detected res = {||})
         \<and> (\<forall>d \<in> set corpus. doc_text_of d \<noteq> [] \<longrightarrow>
               (\<exists>n g0 g1 triple st.
                  convert_limitgraph_edge_to_triple U env g0 (u ''document_'' @ doc_id_of env n d)
                    (u ''contains_text'') (doc_text_of d) (FloatRepr (u ''1.0'')) annotator None
                    (doc_text_of d) = Inr (g1, triple)
                  \<and> t_object triple = doc_text_of d
                  \<and> t_confidence triple = FloatRepr (u ''1.0'')
                  \<and> object_term U base_uri triple =
                      (if is_entity (doc_text_of d)
                       then ns_term (LGDATA base_uri) (clean_uri_component U (doc_text_of d))
                       else Literal (doc_text_of d) (Some (t_source_language triple)) None)
                  \<and> (ns_term (LGDATA base_uri)
                         (clean_uri_component U (u ''document_'' @ doc_id_of env n d)),
                      ns_term (LGONT base_uri) (clean_uri_component U (u ''contains_text'')),
                      object_term U base_uri triple) |\<in>| graph gen'
                  \<and> triple_written U base_uri (graph gen') st triple
                  \<and> (st, ns_term (LGONT base_uri) (u ''confidence''),
                      Literal (u ''1.0'') None (Some (XSD_ns @ u ''float''))) |\<in>| graph gen'
                  \<and> (st, ns_term (LGPROV base_uri) (clean_uri_component U (u ''source_text'')),
                      Literal (doc_text_of d) None (Some (XSD_ns @ u ''string''))) |\<in>| graph gen')))"
proof (intro conjI)
  show "filter (\<lambda>td. td_predicate td = u ''contains_text'') (extract_simple_triples U text doc_id language)
     = [\<lparr> td_subject = u ''document_'' @ doc_id, td_predicate = u ''contains_text'', td_object = text,
           td_confidence = FloatRepr (u ''1.0''), td_source_doc = doc_id \<rparr>]"
    by (rule extract_simple_triples_contains_text)
  show "doc_text_of doc = [] \<longrightarrow>
         convert_document U env base_uri annotator cs doc =
           Inr (cs\<lparr>cs_gen := (cs_gen cs)\<lparr>gen_effects := gen_effects (cs_gen cs) + 1\<rparr>\<rparr>)"
    using convert_document_empty by blast
  show "\<exists>gen' res. convert_limitgraph_corpus U env base_uri gen corpus annotator = Inr (gen', res)
         \<and> res_graph res = graph gen'
         \<and> triples_count res =
              (\<Sum>d\<leftarrow>corpus. if doc_text_of d = [] then 0
                            else length (extract_simple_triples U (doc_text_of d) []
                                           (projr (detect_language U (doc_text_of d)))))
         \<and> ((\<forall>d \<in> set corpus. doc_text_of d = []) \<longrightarrow>
               graph gen' = graph gen \<and> triples_count res = 0 \<and> languages_detected res = {||})
         \<and> (\<forall>d \<in> set corpus. doc_text_of d \<noteq> [] \<longrightarrow>
               (\<exists>n g0 g1 triple st.
                  convert_limitgraph_edge_to_triple U env g0 (u ''document_'' @ doc_id_of env n d)
                    (u ''contains_text'') (doc_text_of d) (FloatRepr (u ''1.0'')) annotator None
                    (doc_text_of d) = Inr (g1, triple)
                  \<and> t_object triple = doc_text_of d
                  \<and> t_confidence triple = FloatRepr (u ''1.0'')
                  \<and> object_term U base_uri triple =
                      (if is_entity (doc_text_of d)
                       then ns_term (LGDATA base_uri) (clean_uri_component U (doc_text_of d))
                       else Literal (doc_text_of d) (Some (t_source_language triple)) None)
                  \<and> (ns_term (LGDATA base_uri)
                         (clean_uri_component U (u ''document_'' @ doc_id_of env n d)),
                      ns_term (LGONT base_uri) (clean_uri_component U (u ''contains_text'')),
                      object_term U base_uri triple) |\<in>| graph gen'
                  \<and> triple_written U base_uri (graph gen') st triple
                  \<and> (st, ns_term (LGONT base_uri) (u ''confidence''),
                      Literal (u ''1.0'') None (Some (XSD_ns @ u ''float''))) |\<in>| graph gen'
                  \<and> (st, ns_term (LGPROV base_uri) (clean_uri_component U (u ''source_text'')),
                      Literal (doc_text_of d) None (Some (XSD_ns @ u ''string''))) |\<in>| graph gen'))"
  proof -
    define cs0 where "cs0 = \<lparr> cs_gen = gen, cs_languages = {||}, cs_triples_added = 0 \<rparr>"
    from convert_limitgraph_corpus_result [of U env base_uri annotator gen corpus]
    obtain cs' gen' res where
      a: "convert_documents U env base_uri annotator cs0 corpus = Inr cs'"
      and c: "convert_limitgraph_corpus U env base_uri gen corpus annotator = Inr (gen', res)"
      and g: "graph gen' = graph (cs_gen cs')"
      and l: "languages_detected res = cs_languages cs'"
      and k: "triples_count res = cs_triples_added cs'"
      unfolding cs0_def by (elim exE conjE)
    have rg: "res_graph res = graph gen'"
      using c a by (auto simp: convert_limitgraph_corpus_def cs0_def Let_def)
    have cnt: "triples_count res =
            (\<Sum>d\<leftarrow>corpus. if doc_text_of d = [] then 0
                          else length (extract_simple_triples U (doc_text_of d) []
                                         (projr (detect_language U (doc_text_of d)))))"
      unfolding k using convert_documents_count [OF a] by (simp add: cs0_def)
    have skip: "(\<forall>d \<in> set corpus. doc_text_of d = []) \<longrightarrow>
             graph gen' = graph gen \<and> triples_count res = 0 \<and> languages_detected res = {||}"
    proof
      assume e: "\<forall>d \<in> set corpus. doc_text_of d = []"
      show "graph gen' = graph gen \<and> triples_count res = 0 \<and> languages_detected res = {||}"
        unfolding g k l using convert_documents_all_empty [OF e a] by (simp add: cs0_def)
    qed
    from convert_documents_ok [of U env base_uri annotator cs0 corpus]
    have w: "\<forall>d \<in> set corpus. doc_text_of d \<noteq> [] \<longrightarrow>
             (\<exists>n g0 g1 triple st.
                convert_limitgraph_edge_to_triple U env g0 (u ''document_'' @ doc_id_of env n d)
                  (u ''contains_text'') (doc_text_of d) (FloatRepr (u ''1.0'')) annotator None
                  (doc_text_of d) = Inr (g1, triple)
                \<and> triple_written U base_uri (graph (cs_gen cs')) st triple)"
      unfolding a by (elim exE conjE) simp
    have all: "\<forall>d \<in> set corpus. doc_text_of d \<noteq> [] \<longrightarrow>
               (\<exists>n g0 g1 triple st.
                  convert_limitgraph_edge_to_triple U env g0 (u ''document_'' @ doc_id_of env n d)
                    (u ''contains_text'') (doc_text_of d) (FloatRepr (u ''1.0'')) annotator None
                    (doc_text_of d) = Inr (g1, triple)
                  \<and> t_object triple = doc_text_of d
                  \<and> t_confidence triple = FloatRepr (u ''1.0'')
                  \<and> object_term U base_uri triple =
                      (if is_entity (doc_text_of d)
                       then ns_term (LGDATA base_uri) (clean_uri_component U (doc_text_of d))
                       else Literal (doc_text_of d) (Some (t_source_language triple)) None)
                  \<and> (ns_term (LGDATA base_uri)
                         (clean_uri_component U (u ''document_'' @ doc_id_of env n d)),
                      ns_term (LGONT base_uri) (clean_uri_component U (u ''contains_text'')),
                      object_term U base_uri triple) |\<in>| graph gen'
                  \<and> triple_written U base_uri (graph gen') st triple
                  \<and> (st, ns_term (LGONT base_uri) (u ''confidence''),
                      Literal (u ''1.0'') None (Some (XSD_ns @ u ''float''))) |\<in>| graph gen'
                  \<and> (st, ns_term (LGPROV base_uri) (clean_uri_component U (u ''source_text'')),
                      Literal (doc_text_of d) None (Some (XSD_ns @ u ''string''))) |\<in>| graph gen')"
    proof (intro ballI impI)
      fix d assume "d \<in> set corpus" and "doc_text_of d \<noteq> []"
      with w obtain n g0 g1 triple st where
        e: "convert_limitgraph_edge_to_triple U env g0 (u ''document_'' @ doc_id_of env n d)
                  (u ''contains_text'') (doc_text_of d) (FloatRepr (u ''1.0'')) annotator None
                  (doc_text_of d) = Inr (g1, triple)"
        and t: "triple_written U base_uri (graph gen') st triple"
        unfolding g by blast
      note f = convert_edge_fields [OF e]
      have f1: "t_object triple = doc_text_of d" and f2: "t_confidence triple = FloatRepr (u ''1.0'')"
        and f3: "t_subject triple = u ''document_'' @ doc_id_of env n d"
        and f4: "t_predicate triple = u ''contains_text''"
        using f by blast+
      have ob: "object_term U base_uri triple =
                    (if is_entity (doc_text_of d)
                     then ns_term (LGDATA base_uri) (clean_uri_component U (doc_text_of d))
                     else Literal (doc_text_of d) (Some (t_source_language triple)) None)"
        by (simp add: object_term_def f1)
      have fact: "(ns_term (LGDATA base_uri)
                           (clean_uri_component U (u ''document_'' @ doc_id_of env n d)),
                        ns_term (LGONT base_uri) (clean_uri_component U (u ''contains_text'')),
                        object_term U base_uri triple) |\<in>| graph gen'"
        using triple_written_fact(1) [OF t] unfolding f3 f4 .
      have conf: "(st, ns_term (LGONT base_uri) (u ''confidence''),
                        Literal (u ''1.0'') None (Some (XSD_ns @ u ''float''))) |\<in>| graph gen'"
        using triple_written_fact(2) [OF t] unfolding f2 by simp
      from convert_edge_provenance [OF e] obtain items where
        p: "t_provenance triple = Some items" and i: "(u ''source_text'', doc_text_of d) \<in> set items"
        by blast
      note src = triple_written_provenance [OF t p i]
      show "\<exists>n g0 g1 triple st.
                  convert_limitgraph_edge_to_triple U env g0 (u ''document_'' @ doc_id_of env n d)
                    (u ''contains_text'') (doc_text_of d) (FloatRepr (u ''1.0'')) annotator None
                    (doc_text_of d) = Inr (g1, triple)
                  \<and> t_object triple = doc_text_of d
                  \<and> t_confidence triple = FloatRepr (u ''1.0'')
                  \<and> object_term U base_uri triple =
                      (if is_entity (doc_text_of d)
                       then ns_term (LGDATA base_uri) (clean_uri_component U (doc_text_of d))
                       else Literal (doc_text_of d) (Some (t_source_language triple)) None)
                  \<and> (ns_term (LGDATA base_uri)
                         (clean_uri_component U (u ''document_'' @ doc_id_of env n d)),
                      ns_term (LGONT base_uri) (clean_uri_component U (u ''contains_text'')),
                      object_term U base_uri triple) |\<in>| graph gen'
                  \<and> triple_written U base_uri (graph gen') st triple
                  \<and> (st, ns_term (LGONT base_uri) (u ''confidence''),
                      Literal (u ''1.0'') None (Some (XSD_ns @ u ''float''))) |\<in>| graph gen'
                  \<and> (st, ns_term (LGPROV base_uri) (clean_uri_component U (u ''source_text'')),
                      Literal (doc_text_of d) None (Some (XSD_ns @ u ''string''))) |\<in>| graph gen'"
        using e f1 f2 ob fact t conf src
        by (intro exI [of _ n] exI [of _ g0] exI [of _ g1] exI [of _ triple] exI [of _ st] conjI)
    qed
    show ?thesis
      using c rg cnt skip all by (intro exI [of _ gen'] exI [of _ res] conjI)
  qed
qed

lemma doc_bob_text: "doc_text_of doc_bob = u ''Bob owns a red car.''"
  by (simp add: doc_bob_def doc_text_of_def)

lemma doc_bob_nonempty: "doc_text_of doc_bob \<noteq> []"
  by (simp add: doc_bob_text u_def)

lemma doc_empty_text: "doc_text_of doc_empty = []"
  by (simp add: doc_empty_def doc_text_of_def)

lemma length_extract_ascii:
  "length (extract_simple_triples ascii_runtime t i l) = 1"
  by (simp add: extract_simple_triples_def match_triples_def ascii_rt_simps Let_def)

lemma bob_not_entity: "\<not> is_entity (doc_text_of doc_bob)"
  by (simp add: doc_bob_text is_entity_def u_def)

text \<open>
  The document with the empty text in the starting state of a conversion, the corpus made
  of that document alone, and the corpus of one document, \<^verbatim>\<open>Bob owns a red car.\<close>, in
  which no pattern matches and whose text, with its full stop, is written as a literal.
\<close>

theorem convert_limitgraph_corpus_contains_text_witness:
  "doc_text_of doc_empty = []
   \<and> convert_document ascii_runtime sample_env default_base (u ''corpus_processor'')
        \<lparr> cs_gen = empty_generator, cs_languages = {||}, cs_triples_added = 0 \<rparr> doc_empty
       = Inr \<lparr> cs_gen = \<lparr> graph = {||}, gen_effects = 1 \<rparr>, cs_languages = {||},
               cs_triples_added = 0 \<rparr>
   \<and> list_all (\<lambda>d. doc_text_of d = []) [doc_empty]
   \<and> (\<exists>gen' res.
         convert_limitgraph_corpus ascii_runtime sample_env default_base empty_generator [doc_empty]
            (u ''corpus_processor'') = Inr (gen', res)
         \<and> graph gen' = graph empty_generator \<and> triples_count res = 0
         \<and> languages_detected res = {||})
   \<and> doc_bob \<in> set [doc_bob]
   \<and> doc_text_of doc_bob = u ''Bob owns a red car.''
   \<and> doc_text_of doc_bob \<noteq> []
   \<and> (\<exists>gen' res n g0 g1 triple st.
         convert_limitgraph_corpus ascii_runtime sample_env default_base empty_generator [doc_bob]
            (u ''corpus_processor'') = Inr (gen', res)
         \<and> triples_count res = 1
         \<and> convert_limitgraph_edge_to_triple ascii_runtime sample_env g0
              (u ''document_'' @ doc_id_of sample_env n doc_bob) (u ''contains_text'')
              (doc_text_of doc_bob) (FloatRepr (u ''1.0'')) (u ''corpus_processor'') None
              (doc_text_of doc_bob) = Inr (g1, triple)
         \<and> t_object triple = doc_text_of doc_bob
         \<and> t_confidence triple = FloatRepr (u ''1.0'')
         \<and> object_term ascii_runtime default_base triple
             = Literal (doc_text_of doc_bob) (Some (t_source_language triple)) None
         \<and> (ns_term (LGDATA default_base)
                (clean_uri_component ascii_runtime (u ''document_'' @ doc_id_of sample_env n doc_bob)),
             ns_term (LGONT default_base) (clean_uri_component ascii_runtime (u ''contains_text'')),
             object_term ascii_runtime default_base triple) |\<in>| graph gen'
         \<and> triple_written ascii_runtime default_base (graph gen') st triple
         \<and> (st, ns_term (LGONT default_base) (u ''confidence''),
             Literal (u ''1.0'') None (Some (XSD_ns @ u ''float''))) |\<in>| graph gen'
         \<and> (st, ns_term (LGPROV default_base) (clean_uri_component ascii_runtime (u ''source_text'')),
             Literal (doc_text_of doc_bob) None (Some (XSD_ns @ u ''string''))) |\<in>| graph gen')"
proof -
  define cs0 where "cs0 = \<lparr> cs_gen = empty_generator, cs_languages = {||}, cs_triples_added = 0 \<rparr>"
  note A = convert_limitgraph_corpus_contains_text
             [where U = ascii_runtime and env = sample_env and base_uri = default_base
                and annotator = "u ''corpus_processor''" and cs = cs0 and doc = doc_empty
                and gen = empty_generator and corpus = "[doc_empty]", THEN conjunct2]
  note B = convert_limitgraph_corpus_contains_text
             [where U = ascii_runtime and env = sample_env and base_uri = default_base
                and annotator = "u ''corpus_processor''" and cs = cs0 and doc = doc_empty
                and gen = empty_generator and corpus = "[doc_bob]", THEN conjunct2, THEN conjunct2]
  have skip1: "convert_document ascii_runtime sample_env default_base (u ''corpus_processor'')
        \<lparr> cs_gen = empty_generator, cs_languages = {||}, cs_triples_added = 0 \<rparr> doc_empty
       = Inr \<lparr> cs_gen = \<lparr> graph = {||}, gen_effects = 1 \<rparr>, cs_languages = {||},
               cs_triples_added = 0 \<rparr>"
    using A [THEN conjunct1, THEN mp, OF doc_empty_text]
    by (simp add: cs0_def empty_generator_def)
  have all_empty: "\<forall>d \<in> set [doc_empty]. doc_text_of d = []"
    by (simp add: doc_empty_text)
  have la: "list_all (\<lambda>d. doc_text_of d = []) [doc_empty]"
    by (simp add: doc_empty_text)
  from A [THEN conjunct2] obtain genA resA where
    cA: "convert_limitgraph_corpus ascii_runtime sample_env default_base empty_generator [doc_empty]
            (u ''corpus_processor'') = Inr (genA, resA)"
    and sA: "(\<forall>d \<in> set [doc_empty]. doc_text_of d = []) \<longrightarrow>
               graph genA = graph empty_generator \<and> triples_count resA = 0
               \<and> languages_detected resA = {||}"
    by (elim exE conjE)
  note rA = sA [THEN mp, OF all_empty]
  have partA: "\<exists>gen' res.
         convert_limitgraph_corpus ascii_runtime sample_env default_base empty_generator [doc_empty]
            (u ''corpus_processor'') = Inr (gen', res)
         \<and> graph gen' = graph empty_generator \<and> triples_count res = 0
         \<and> languages_detected res = {||}"
    using cA rA [THEN conjunct1] rA [THEN conjunct2, THEN conjunct1] rA [THEN conjunct2, THEN conjunct2]
    by (intro exI [of _ genA] exI [of _ resA] conjI)
  have mem: "doc_bob \<in> set [doc_bob]" by simp
  from B obtain genB resB where
    cB: "convert_limitgraph_corpus ascii_runtime sample_env default_base empty_generator [doc_bob]
            (u ''corpus_processor'') = Inr (genB, resB)"
    and kB: "triples_count resB =
              (\<Sum>d\<leftarrow>[doc_bob]. if doc_text_of d = [] then 0
                            else length (extract_simple_triples ascii_runtime (doc_text_of d) []
                                           (projr (detect_language ascii_runtime (doc_text_of d)))))"
    and wB: "\<forall>d \<in> set [doc_bob]. doc_text_of d \<noteq> [] \<longrightarrow>
               (\<exists>n g0 g1 triple st.
                  convert_limitgraph_edge_to_triple ascii_runtime sample_env g0
                    (u ''document_'' @ doc_id_of sample_env n d)
                    (u ''contains_text'') (doc_text_of d) (FloatRepr (u ''1.0''))
                    (u ''corpus_processor'') None (doc_text_of d) = Inr (g1, triple)
                  \<and> t_object triple = doc_text_of d
                  \<and> t_confidence triple = FloatRepr (u ''1.0'')
                  \<and> object_term ascii_runtime default_base triple =
                      (if is_entity (doc_text_of d)
                       then ns_term (LGDATA default_base) (clean_uri_component ascii_runtime (doc_text_of d))
                       else Literal (doc_text_of d) (Some (t_source_language triple)) None)
                  \<and> (ns_term (LGDATA default_base)
                         (clean_uri_component ascii_runtime (u ''document_'' @ doc_id_of sample_env n d)),
                      ns_term (LGONT default_base) (clean_uri_component ascii_runtime (u ''contains_text'')),
                      object_term ascii_runtime default_base triple) |\<in>| graph genB
                  \<and> triple_written ascii_runtime default_base (graph genB) st triple
                  \<and> (st, ns_term (LGONT default_base) (u ''confidence''),
                      Literal (u ''1.0'') None (Some (XSD_ns @ u ''float''))) |\<in>| graph genB
                  \<and> (st, ns_term (LGPROV default_base) (clean_uri_component ascii_runtime (u ''source_text'')),
                      Literal (doc_text_of d) None (Some (XSD_ns @ u ''string''))) |\<in>| graph genB)"
    by (elim exE conjE)
  have k1: "triples_count resB = 1"
    unfolding kB using doc_bob_nonempty by (simp add: length_extract_ascii)
  from wB [THEN bspec, OF mem, THEN mp, OF doc_bob_nonempty]
  obtain n g0 g1 triple st where
    e: "convert_limitgraph_edge_to_triple ascii_runtime sample_env g0
              (u ''document_'' @ doc_id_of sample_env n doc_bob) (u ''contains_text'')
              (doc_text_of doc_bob) (FloatRepr (u ''1.0'')) (u ''corpus_processor'') None
              (doc_text_of doc_bob) = Inr (g1, triple)"
    and f1: "t_object triple = doc_text_of doc_bob"
    and f2: "t_confidence triple = FloatRepr (u ''1.0'')"
    and ob: "object_term ascii_runtime default_base triple =
                      (if is_entity (doc_text_of doc_bob)
                       then ns_term (LGDATA default_base) (clean_uri_component ascii_runtime (doc_text_of doc_bob))
                       else Literal (doc_text_of doc_bob) (Some (t_source_language triple)) None)"
    and fact: "(ns_term (LGDATA default_base)
                (clean_uri_component ascii_runtime (u ''document_'' @ doc_id_of sample_env n doc_bob)),
             ns_term (LGONT default_base) (clean_uri_component ascii_runtime (u ''contains_text'')),
             object_term ascii_runtime default_base triple) |\<in>| graph genB"
    and t: "triple_written ascii_runtime default_base (graph genB) st triple"
    and conf: "(st, ns_term (LGONT default_base) (u ''confidence''),
             Literal (u ''1.0'') None (Some (XSD_ns @ u ''float''))) |\<in>| graph genB"
    and src: "(st, ns_term (LGPROV default_base) (clean_uri_component ascii_runtime (u ''source_text'')),
             Literal (doc_text_of doc_bob) None (Some (XSD_ns @ u ''string''))) |\<in>| graph genB"
    by (elim exE conjE)
  have ob1: "object_term ascii_runtime default_base triple
             = Literal (doc_text_of doc_bob) (Some (t_source_language triple)) None"
    unfolding ob using bob_not_entity by simp
  have partB: "\<exists>gen' res n g0 g1 triple st.
         convert_limitgraph_corpus ascii_runtime sample_env default_base empty_generator [doc_bob]
            (u ''corpus_processor'') = Inr (gen', res)
         \<and> triples_count res = 1
         \<and> convert_limitgraph_edge_to_triple ascii_runtime sample_env g0
              (u ''document_'' @ doc_id_of sample_env n doc_bob) (u ''contains_text'')
              (doc_text_of doc_bob) (FloatRepr (u ''1.0'')) (u ''corpus_processor'') None
              (doc_text_of doc_bob) = Inr (g1, triple)
         \<and> t_object triple = doc_text_of doc_bob
         \<and> t_confidence triple = FloatRepr (u ''1.0'')
         \<and> object_term ascii_runtime default_base triple
             = Literal (doc_text_of doc_bob) (Some (t_source_language triple)) None
         \<and> (ns_term (LGDATA default_base)
                (clean_uri_component ascii_runtime (u ''document_'' @ doc_id_of sample_env n doc_bob)),
             ns_term (LGONT default_base) (clean_uri_component ascii_runtime (u ''contains_text'')),
             object_term ascii_runtime default_base triple) |\<in>| graph gen'
         \<and> triple_written ascii_runtime default_base (graph gen') st triple
         \<and> (st, ns_term (LGONT default_base) (u ''confidence''),
             Literal (u ''1.0'') None (Some (XSD_ns @ u ''float''))) |\<in>| graph gen'
         \<and> (st, ns_term (LGPROV default_base) (clean_uri_component ascii_runtime (u ''source_text'')),
             Literal (doc_text_of doc_bob) None (Some (XSD_ns @ u ''string''))) |\<in>| graph gen'"
    using cB k1 e f1 f2 ob1 fact t conf src
    by (intro exI [of _ genB] exI [of _ resB] exI [of _ n] exI [of _ g0] exI [of _ g1]
          exI [of _ triple] exI [of _ st] conjI)
  show ?thesis
    using doc_empty_text skip1 la partA mem doc_bob_text doc_bob_nonempty partB
    by (intro conjI)
qed
text \<open>
  Claim C3 as written fails for a document with an empty text: the loop skips it, the
  graph stays empty and no statement is counted, so no \<^verbatim>\<open>contains_text\<close> fact
  exists for it.
\<close>

theorem convert_limitgraph_corpus_empty_text_counterexample:
  "doc_text_of doc_empty = []
   \<and> (case convert_limitgraph_corpus ascii_runtime sample_env default_base empty_generator [doc_empty]
              (u ''corpus_processor'') of
         Inl e \<Rightarrow> None
       | Inr (g, r) \<Rightarrow> Some (graph g, triples_count r, languages_detected r))
      = Some ({||}, 0, {||})"
  by (simp add: convert_limitgraph_corpus_def convert_document_def doc_text_of_def doc_empty_def
        empty_generator_def Let_def)

section \<open>The languages a conversion records\<close>

lemma rdf_type_not_source_language:
  "ns_term RDF_ns (u ''type'') \<noteq> ns_term (LGONT base_uri) (u ''sourceLanguage'')"
proof
  assume "ns_term RDF_ns (u ''type'') = ns_term (LGONT base_uri) (u ''sourceLanguage'')"
  then have "RDF_ns @ u ''type'' = LGONT base_uri @ u ''sourceLanguage''"
    by (simp add: ns_term_def)
  then have "take 2 (rev (RDF_ns @ u ''type'')) = take 2 (rev (LGONT base_uri @ u ''sourceLanguage''))"
    by simp
  then show False by (simp add: u_def)
qed

lemma rdfs_label_not_source_language:
  "ns_term RDFS_ns (u ''label'') \<noteq> ns_term (LGONT base_uri) (u ''sourceLanguage'')"
proof
  assume "ns_term RDFS_ns (u ''label'') = ns_term (LGONT base_uri) (u ''sourceLanguage'')"
  then have "RDFS_ns @ u ''label'' = LGONT base_uri @ u ''sourceLanguage''"
    by (simp add: ns_term_def)
  then have "take 1 (rev (RDFS_ns @ u ''label'')) = take 1 (rev (LGONT base_uri @ u ''sourceLanguage''))"
    by simp
  then show False by (simp add: u_def)
qed

lemma ont_names_not_source_language:
  "ns_term (LGONT base_uri) (u ''hasSubject'') \<noteq> ns_term (LGONT base_uri) (u ''sourceLanguage'')"
  "ns_term (LGONT base_uri) (u ''hasPredicate'') \<noteq> ns_term (LGONT base_uri) (u ''sourceLanguage'')"
  "ns_term (LGONT base_uri) (u ''hasObject'') \<noteq> ns_term (LGONT base_uri) (u ''sourceLanguage'')"
  "ns_term (LGONT base_uri) (u ''confidence'') \<noteq> ns_term (LGONT base_uri) (u ''sourceLanguage'')"
  "ns_term (LGONT base_uri) (u ''annotatorId'') \<noteq> ns_term (LGONT base_uri) (u ''sourceLanguage'')"
  "ns_term (LGONT base_uri) (u ''timestamp'') \<noteq> ns_term (LGONT base_uri) (u ''sourceLanguage'')"
  "ns_term (LGONT base_uri) (u ''content'') \<noteq> ns_term (LGONT base_uri) (u ''sourceLanguage'')"
  "ns_term (LGONT base_uri) (u ''documentId'') \<noteq> ns_term (LGONT base_uri) (u ''sourceLanguage'')"
  "ns_term (LGONT base_uri) (u ''language'') \<noteq> ns_term (LGONT base_uri) (u ''sourceLanguage'')"
  by (simp_all add: ns_term_def u_def)

lemma prov_not_source_language:
  "ns_term (LGPROV base_uri) x \<noteq> ns_term (LGONT base_uri) (u ''sourceLanguage'')"
  by (simp add: ns_term_def LGPROV_def LGONT_def u_def)

lemma short_predicate_not_source_language:
  assumes "length p < 14"
  shows "ns_term (LGONT base_uri) (clean_uri_component U p) \<noteq> ns_term (LGONT base_uri) (u ''sourceLanguage'')"
proof
  assume "ns_term (LGONT base_uri) (clean_uri_component U p) = ns_term (LGONT base_uri) (u ''sourceLanguage'')"
  then have "clean_uri_component U p = u ''sourceLanguage''" by (simp add: ns_term_def)
  then have "length (clean_uri_component U p) = 14" by (simp add: u_def)
  moreover have "length (clean_uri_component U p) \<le> length p"
    unfolding clean_uri_component_eq
    using length_filter_le [of _ "map (\<lambda>c. if c = 32 \<or> c = 45 then 95 else c) p"] by simp
  ultimately show False using assms by simp
qed

lemma extracted_predicates_short:
  "td \<in> set (extract_simple_triples U text doc_id language) \<Longrightarrow> length (td_predicate td) < 14"
  by (auto simp: extract_simple_triples_def match_triples_def Let_def u_def split: if_splits)

lemma recorded_languages_okI:
  assumes "\<And>s l. (s, ns_term (LGONT base_uri) (u ''sourceLanguage''), l) |\<in>| g \<Longrightarrow>
            (s, ns_term (LGONT base_uri) (u ''sourceLanguage''), l) |\<in>| g0
            \<or> (\<exists>code \<in> set classifier_codes. l = Literal code None (Some (XSD_ns @ u ''string'')))"
  shows "recorded_languages_ok base_uri g0 g"
  unfolding recorded_languages_ok_def using assms by blast

lemma recorded_languages_okD:
  assumes "recorded_languages_ok base_uri g0 g"
    and "(s, ns_term (LGONT base_uri) (u ''sourceLanguage''), l) |\<in>| g"
  shows "(s, ns_term (LGONT base_uri) (u ''sourceLanguage''), l) |\<in>| g0
            \<or> (\<exists>code \<in> set classifier_codes. l = Literal code None (Some (XSD_ns @ u ''string'')))"
  using assms unfolding recorded_languages_ok_def by blast

lemma add_triple_to_graph_languages:
  assumes n: "t_rlhf_feedback triple = None"
    and lc: "t_source_language triple \<in> set classifier_codes"
    and lp: "length (t_predicate triple) < 14"
    and ok: "recorded_languages_ok base_uri g0 (graph gen)"
  shows "recorded_languages_ok base_uri g0 (graph (fst (add_triple_to_graph U env base_uri gen triple)))"
proof (rule recorded_languages_okI)
  fix s l
  let ?SL = "ns_term (LGONT base_uri) (u ''sourceLanguage'')"
  assume "(s, ?SL, l) |\<in>| graph (fst (add_triple_to_graph U env base_uri gen triple))"
  then have cases: "(s, ?SL, l) |\<in>| graph gen
      \<or> l = Literal (t_source_language triple) None (Some (XSD_ns @ u ''string''))"
    unfolding add_triple_to_graph_None [OF n]
    by (cases "t_provenance triple")
       (auto simp: add_provenance_triples_iff graph_add_iff rdf_type_not_source_language [symmetric]
          ont_names_not_source_language [symmetric] prov_not_source_language [symmetric]
          short_predicate_not_source_language [OF lp, symmetric])
  then show "(s, ?SL, l) |\<in>| g0
            \<or> (\<exists>code \<in> set classifier_codes. l = Literal code None (Some (XSD_ns @ u ''string'')))"
  proof
    assume "(s, ?SL, l) |\<in>| graph gen"
    then show ?thesis by (rule recorded_languages_okD [OF ok])
  next
    assume "l = Literal (t_source_language triple) None (Some (XSD_ns @ u ''string''))"
    then show ?thesis using lc by blast
  qed
qed

lemma write_extracted_languages:
  assumes lp: "length (td_predicate td) < 14"
    and ok: "recorded_languages_ok base_uri g0 (graph (cs_gen cs))"
    and w: "write_extracted U env base_uri annotator text cs td = Inr cs1"
  shows "recorded_languages_ok base_uri g0 (graph (cs_gen cs1))"
proof -
  obtain gen1 triple where
    g1: "graph gen1 = graph (cs_gen cs)"
    and n: "t_rlhf_feedback triple = None"
    and p: "t_predicate triple = td_predicate td"
    and lc: "t_source_language triple \<in> set classifier_codes"
    and w': "write_extracted U env base_uri annotator text cs td =
         Inr (cs\<lparr>cs_gen := fst (add_triple_to_graph U env base_uri gen1 triple),
                 cs_triples_added := cs_triples_added cs + 1\<rparr>)"
    using write_extracted_ok by blast
  have cs1: "cs_gen cs1 = fst (add_triple_to_graph U env base_uri gen1 triple)"
    using w w' by auto
  have ok1: "recorded_languages_ok base_uri g0 (graph gen1)" using ok g1 by simp
  have lp1: "length (t_predicate triple) < 14" using lp p by simp
  show ?thesis
    unfolding cs1 by (rule add_triple_to_graph_languages [OF n lc lp1 ok1])
qed

lemma write_all_languages:
  assumes "\<forall>td \<in> set tds. length (td_predicate td) < 14"
    and "recorded_languages_ok base_uri g0 (graph (cs_gen cs))"
    and "write_all U env base_uri annotator text cs tds = Inr cs'"
  shows "recorded_languages_ok base_uri g0 (graph (cs_gen cs'))"
  using assms
proof (induction tds arbitrary: cs)
  case Nil
  then show ?case by simp
next
  case (Cons td tds)
  obtain cs1 where w: "write_extracted U env base_uri annotator text cs td = Inr cs1"
    using write_extracted_ok by blast
  have lp: "length (td_predicate td) < 14" using Cons.prems(1) by simp
  have ok1: "recorded_languages_ok base_uri g0 (graph (cs_gen cs1))"
    by (rule write_extracted_languages [OF lp Cons.prems(2) w])
  have rest: "write_all U env base_uri annotator text cs1 tds = Inr cs'"
    using Cons.prems(3) w by simp
  have short: "\<forall>td \<in> set tds. length (td_predicate td) < 14" using Cons.prems(1) by simp
  show ?case by (rule Cons.IH [OF short ok1 rest])
qed

lemma convert_document_languages:
  assumes ok: "recorded_languages_ok base_uri g0 (graph (cs_gen cs))"
    and c: "convert_document U env base_uri annotator cs doc = Inr cs'"
  shows "recorded_languages_ok base_uri g0 (graph (cs_gen cs'))"
proof (cases "doc_text_of doc = []")
  case True
  have "graph (cs_gen cs') = graph (cs_gen cs)"
    using c unfolding convert_document_empty [OF True] by auto
  then show ?thesis using ok by simp
next
  case False
  obtain language where d: "detect_language U (doc_text_of doc) = Inr language"
    using detect_language_code by blast
  note cd = convert_document_nonempty [OF False d, of env base_uri annotator cs]
  show ?thesis
  proof (rule write_all_languages [OF _ _ c [unfolded cd]])
    show "\<forall>td \<in> set (extract_simple_triples U (doc_text_of doc)
             (doc_id_of env (gen_effects (cs_gen cs)) doc) language). length (td_predicate td) < 14"
      using extracted_predicates_short by blast
  next
    show "recorded_languages_ok base_uri g0 (graph (cs_gen
       (cs\<lparr>cs_gen := (cs_gen cs)\<lparr>gen_effects := gen_effects (cs_gen cs) + 1,
           graph := graph_add (graph_add (graph_add (graph_add (graph_add (graph (cs_gen cs))
             (ns_term (LGDATA base_uri) (u ''document_'' @ clean_uri_component U (doc_id_of env (gen_effects (cs_gen cs)) doc)),
              ns_term RDF_ns (u ''type''), ns_term (LGONT base_uri) (u ''Document'')))
             (ns_term (LGDATA base_uri) (u ''document_'' @ clean_uri_component U (doc_id_of env (gen_effects (cs_gen cs)) doc)),
              ns_term RDFS_ns (u ''label''),
              Literal (u ''Document '' @ doc_id_of env (gen_effects (cs_gen cs)) doc) (Some language) None))
             (ns_term (LGDATA base_uri) (u ''document_'' @ clean_uri_component U (doc_id_of env (gen_effects (cs_gen cs)) doc)),
              ns_term (LGONT base_uri) (u ''content''), Literal (doc_text_of doc) (Some language) None))
             (ns_term (LGDATA base_uri) (u ''document_'' @ clean_uri_component U (doc_id_of env (gen_effects (cs_gen cs)) doc)),
              ns_term (LGONT base_uri) (u ''documentId''),
              Literal (doc_id_of env (gen_effects (cs_gen cs)) doc) None (Some (XSD_ns @ u ''string''))))
             (ns_term (LGDATA base_uri) (u ''document_'' @ clean_uri_component U (doc_id_of env (gen_effects (cs_gen cs)) doc)),
              ns_term (LGONT base_uri) (u ''language''),
              Literal language None (Some (XSD_ns @ u ''string'')))\<rparr>,
          cs_languages := finsert language (cs_languages cs)\<rparr>)))"
    proof (rule recorded_languages_okI)
      fix s l
      let ?SL = "ns_term (LGONT base_uri) (u ''sourceLanguage'')"
      assume "(s, ?SL, l) |\<in>| graph (cs_gen
       (cs\<lparr>cs_gen := (cs_gen cs)\<lparr>gen_effects := gen_effects (cs_gen cs) + 1,
           graph := graph_add (graph_add (graph_add (graph_add (graph_add (graph (cs_gen cs))
             (ns_term (LGDATA base_uri) (u ''document_'' @ clean_uri_component U (doc_id_of env (gen_effects (cs_gen cs)) doc)),
              ns_term RDF_ns (u ''type''), ns_term (LGONT base_uri) (u ''Document'')))
             (ns_term (LGDATA base_uri) (u ''document_'' @ clean_uri_component U (doc_id_of env (gen_effects (cs_gen cs)) doc)),
              ns_term RDFS_ns (u ''label''),
              Literal (u ''Document '' @ doc_id_of env (gen_effects (cs_gen cs)) doc) (Some language) None))
             (ns_term (LGDATA base_uri) (u ''document_'' @ clean_uri_component U (doc_id_of env (gen_effects (cs_gen cs)) doc)),
              ns_term (LGONT base_uri) (u ''content''), Literal (doc_text_of doc) (Some language) None))
             (ns_term (LGDATA base_uri) (u ''document_'' @ clean_uri_component U (doc_id_of env (gen_effects (cs_gen cs)) doc)),
              ns_term (LGONT base_uri) (u ''documentId''),
              Literal (doc_id_of env (gen_effects (cs_gen cs)) doc) None (Some (XSD_ns @ u ''string''))))
             (ns_term (LGDATA base_uri) (u ''document_'' @ clean_uri_component U (doc_id_of env (gen_effects (cs_gen cs)) doc)),
              ns_term (LGONT base_uri) (u ''language''),
              Literal language None (Some (XSD_ns @ u ''string'')))\<rparr>,
          cs_languages := finsert language (cs_languages cs)\<rparr>))"
      then have "(s, ?SL, l) |\<in>| graph (cs_gen cs)"
        by (simp add: graph_add_iff rdf_type_not_source_language [symmetric]
              rdfs_label_not_source_language [symmetric] ont_names_not_source_language [symmetric])
      then show "(s, ?SL, l) |\<in>| g0
            \<or> (\<exists>code \<in> set classifier_codes. l = Literal code None (Some (XSD_ns @ u ''string'')))"
        by (rule recorded_languages_okD [OF ok])
    qed
  qed
qed

lemma convert_documents_languages:
  assumes "recorded_languages_ok base_uri g0 (graph (cs_gen cs))"
    and "convert_documents U env base_uri annotator cs docs = Inr cs'"
  shows "recorded_languages_ok base_uri g0 (graph (cs_gen cs'))"
  using assms
proof (induction docs arbitrary: cs)
  case Nil
  then show ?case by simp
next
  case (Cons doc docs)
  obtain cs1 where a1: "convert_document U env base_uri annotator cs doc = Inr cs1"
    using convert_document_ok by blast
  have ok1: "recorded_languages_ok base_uri g0 (graph (cs_gen cs1))"
    by (rule convert_document_languages [OF Cons.prems(1) a1])
  have rest: "convert_documents U env base_uri annotator cs1 docs = Inr cs'"
    using Cons.prems(2) a1 by simp
  show ?case by (rule Cons.IH [OF ok1 rest])
qed

lemma recorded_languages_ok_refl: "recorded_languages_ok base_uri g g"
  by (rule recorded_languages_okI) blast

lemma classifier_codes_set: "set classifier_codes = {u ''es'', u ''ar'', u ''id'', u ''en''}"
  by (simp add: classifier_codes_eq)

lemma other_codes_not_classifier:
  "u ''zh'' \<notin> set classifier_codes" "u ''hi'' \<notin> set classifier_codes"
  by (simp_all add: classifier_codes_eq u_def)

text \<open>
  Claim C10. For every corpus the conversion returns, the languages it reports as
  detected are among es, ar, id, en, the codes of the classifier's lexicon, so zh and hi,
  which the language table of the store lists, are never among them; and every source
  language that the graph records after the conversion and did not record before it is
  one of these four codes.
\<close>

theorem convert_limitgraph_corpus_languages:
  "\<exists>gen' res. convert_limitgraph_corpus U env base_uri gen corpus annotator = Inr (gen', res)
     \<and> fset (languages_detected res) \<subseteq> {u ''es'', u ''ar'', u ''id'', u ''en''}
     \<and> u ''zh'' |\<notin>| languages_detected res \<and> u ''hi'' |\<notin>| languages_detected res
     \<and> (\<forall>s l. (s, ns_term (LGONT base_uri) (u ''sourceLanguage''), l) |\<in>| graph gen' \<longrightarrow>
            (s, ns_term (LGONT base_uri) (u ''sourceLanguage''), l) |\<in>| graph gen
            \<or> (\<exists>code \<in> {u ''es'', u ''ar'', u ''id'', u ''en''}.
                  l = Literal code None (Some (XSD_ns @ u ''string''))))"
proof -
  define cs0 where "cs0 = \<lparr> cs_gen = gen, cs_languages = {||}, cs_triples_added = 0 \<rparr>"
  from convert_limitgraph_corpus_result [of U env base_uri annotator gen corpus]
  obtain cs' gen' res where
    a: "convert_documents U env base_uri annotator cs0 corpus = Inr cs'"
    and c: "convert_limitgraph_corpus U env base_uri gen corpus annotator = Inr (gen', res)"
    and g: "graph gen' = graph (cs_gen cs')"
    and l: "languages_detected res = cs_languages cs'"
    unfolding cs0_def by (elim exE conjE)
  from convert_documents_ok [of U env base_uri annotator cs0 corpus]
  have "fset (cs_languages cs') \<subseteq> fset (cs_languages cs0) \<union> set classifier_codes"
    unfolding a by (elim exE conjE) simp
  then have ls: "fset (languages_detected res) \<subseteq> set classifier_codes"
    unfolding l by (simp add: cs0_def)
  have ok0: "recorded_languages_ok base_uri (graph gen) (graph (cs_gen cs0))"
    unfolding cs0_def by (simp add: recorded_languages_ok_refl)
  have ok: "recorded_languages_ok base_uri (graph gen) (graph gen')"
    unfolding g by (rule convert_documents_languages [OF ok0 a])
  have l1: "fset (languages_detected res) \<subseteq> {u ''es'', u ''ar'', u ''id'', u ''en''}"
    using ls unfolding classifier_codes_set .
  have l2: "u ''zh'' |\<notin>| languages_detected res" "u ''hi'' |\<notin>| languages_detected res"
    using ls other_codes_not_classifier by blast+
  have r: "\<forall>s l. (s, ns_term (LGONT base_uri) (u ''sourceLanguage''), l) |\<in>| graph gen' \<longrightarrow>
            (s, ns_term (LGONT base_uri) (u ''sourceLanguage''), l) |\<in>| graph gen
            \<or> (\<exists>code \<in> {u ''es'', u ''ar'', u ''id'', u ''en''}.
                  l = Literal code None (Some (XSD_ns @ u ''string'')))"
    using ok unfolding recorded_languages_ok_def classifier_codes_set .
  show ?thesis
    using c l1 l2 r by (intro exI [of _ gen'] exI [of _ res] conjI)
qed

lemma triple_written_source_language:
  "triple_written U base_uri g st triple \<Longrightarrow>
   (st, ns_term (LGONT base_uri) (u ''sourceLanguage''),
    Literal (t_source_language triple) None (Some (XSD_ns @ u ''string''))) |\<in>| g"
  unfolding triple_written_def Let_def by (elim conjE)

lemma empty_generator_graph: "graph empty_generator = {||}"
  by (simp add: empty_generator_def)

text \<open>
  The corpus of one document converted by a new generator: the graph records a source
  language, which is one of the four codes.
\<close>

theorem convert_limitgraph_corpus_languages_witness:
  "\<exists>gen' res s l.
     convert_limitgraph_corpus ascii_runtime sample_env default_base empty_generator [doc_bob]
        (u ''corpus_processor'') = Inr (gen', res)
     \<and> (s, ns_term (LGONT default_base) (u ''sourceLanguage''), l) |\<in>| graph gen'
     \<and> (s, ns_term (LGONT default_base) (u ''sourceLanguage''), l) |\<notin>| graph empty_generator
     \<and> l \<in> (\<lambda>code. Literal code None (Some (XSD_ns @ u ''string''))) ` {u ''es'', u ''ar'', u ''id'', u ''en''}
     \<and> fset (languages_detected res) \<subseteq> {u ''es'', u ''ar'', u ''id'', u ''en''}"
proof -
  define cs0 where "cs0 = \<lparr> cs_gen = empty_generator, cs_languages = {||}, cs_triples_added = 0 \<rparr>"
  let ?ann = "u ''corpus_processor''"
  from convert_limitgraph_corpus_languages
         [of ascii_runtime sample_env default_base empty_generator "[doc_bob]" ?ann]
  obtain gen' res where
    c: "convert_limitgraph_corpus ascii_runtime sample_env default_base empty_generator [doc_bob] ?ann
          = Inr (gen', res)"
    and l1: "fset (languages_detected res) \<subseteq> {u ''es'', u ''ar'', u ''id'', u ''en''}"
    and r: "\<forall>s l. (s, ns_term (LGONT default_base) (u ''sourceLanguage''), l) |\<in>| graph gen' \<longrightarrow>
            (s, ns_term (LGONT default_base) (u ''sourceLanguage''), l) |\<in>| graph empty_generator
            \<or> (\<exists>code \<in> {u ''es'', u ''ar'', u ''id'', u ''en''}.
                  l = Literal code None (Some (XSD_ns @ u ''string'')))"
    by (elim exE conjE)
  from convert_limitgraph_corpus_result
         [of ascii_runtime sample_env default_base ?ann empty_generator "[doc_bob]"]
  obtain cs' where
    a: "convert_documents ascii_runtime sample_env default_base ?ann cs0 [doc_bob] = Inr cs'"
    and g: "graph gen' = graph (cs_gen cs')"
    unfolding cs0_def c by (elim exE conjE) simp
  from convert_documents_ok [of ascii_runtime sample_env default_base ?ann cs0 "[doc_bob]"]
  have "\<forall>d \<in> set [doc_bob]. doc_text_of d \<noteq> [] \<longrightarrow>
           (\<exists>n g0 g1 triple st.
              convert_limitgraph_edge_to_triple ascii_runtime sample_env g0
                (u ''document_'' @ doc_id_of sample_env n d)
                (u ''contains_text'') (doc_text_of d) (FloatRepr (u ''1.0'')) ?ann None
                (doc_text_of d) = Inr (g1, triple)
              \<and> triple_written ascii_runtime default_base (graph (cs_gen cs')) st triple)"
    unfolding a by (elim exE conjE) simp
  then obtain st triple where
    "triple_written ascii_runtime default_base (graph (cs_gen cs')) st triple"
    using doc_bob_nonempty by auto
  then have m: "(st, ns_term (LGONT default_base) (u ''sourceLanguage''),
       Literal (t_source_language triple) None (Some (XSD_ns @ u ''string''))) |\<in>| graph gen'"
    unfolding g by (rule triple_written_source_language)
  have ne: "(st, ns_term (LGONT default_base) (u ''sourceLanguage''),
       Literal (t_source_language triple) None (Some (XSD_ns @ u ''string''))) |\<notin>| graph empty_generator"
    by (simp add: empty_generator_graph)
  from r m ne have "\<exists>code \<in> {u ''es'', u ''ar'', u ''id'', u ''en''}.
      Literal (t_source_language triple) None (Some (XSD_ns @ u ''string''))
        = Literal code None (Some (XSD_ns @ u ''string''))"
    by blast
  then have im: "Literal (t_source_language triple) None (Some (XSD_ns @ u ''string''))
     \<in> (\<lambda>code. Literal code None (Some (XSD_ns @ u ''string''))) ` {u ''es'', u ''ar'', u ''id'', u ''en''}"
    by blast
  show ?thesis
    using c m ne im l1
    by (intro exI [of _ gen'] exI [of _ res] exI [of _ st]
          exI [of _ "Literal (t_source_language triple) None (Some (XSD_ns @ u ''string''))"] conjI)
qed

end
